theory Spec2Isabelle
  imports Main "HOL-Library.Extended_Nat"
begin

section \<open>Debug views: variables, watch expressions, call stack, breakpoints\<close>

text \<open>
  A shallow embedding of \<^verbatim>\<open>vs/workbench/parts/debug/electron-browser/debugViews.ts\<close>.
  The four classes of that file are views over a debug model that is owned elsewhere;
  what the file itself decides is a comparator, a size computation, the handlers that
  arm the refresh schedulers, and the chains of tree calls run when a scheduler fires.
\<close>

subsection \<open>Breakpoints: the elements of the breakpoints tree\<close>

text \<open>
  The tree of the breakpoints view shows instances of three classes of the debug model,
  told apart with \<^verbatim>\<open>instanceof\<close>. Line and column are JavaScript numbers that hold
  integers. The URI type and the three helpers the comparator calls on it
  (\<^verbatim>\<open>uri.toString()\<close>, \<^verbatim>\<open>resources.basenameOrAuthority\<close>,
  \<^verbatim>\<open>String.prototype.localeCompare\<close>) live outside the file and are parameters.
\<close>

datatype 'u IBreakpoint =
    ExceptionBreakpoint string
  | FunctionBreakpoint string
  | Breakpoint 'u int int

record 'u Resources =
  toString :: "'u \<Rightarrow> string"
  basenameOrAuthority :: "'u \<Rightarrow> string"
  localeCompare :: "string \<Rightarrow> string \<Rightarrow> int"

fun isExceptionBreakpoint :: "'u IBreakpoint \<Rightarrow> bool" where
  "isExceptionBreakpoint (ExceptionBreakpoint _) = True"
| "isExceptionBreakpoint _ = False"

fun isFunctionBreakpoint :: "'u IBreakpoint \<Rightarrow> bool" where
  "isFunctionBreakpoint (FunctionBreakpoint _) = True"
| "isFunctionBreakpoint _ = False"

fun isBreakpoint :: "'u IBreakpoint \<Rightarrow> bool" where
  "isBreakpoint (Breakpoint _ _ _) = True"
| "isBreakpoint _ = False"

text \<open>The \<^verbatim>\<open>sorter.compare\<close> of the breakpoints tree; the equations follow the order of
  the source's early returns.\<close>

fun compare :: "'u Resources \<Rightarrow> 'u IBreakpoint \<Rightarrow> 'u IBreakpoint \<Rightarrow> int" where
  "compare R (ExceptionBreakpoint _) _ = - 1"
| "compare R _ (ExceptionBreakpoint _) = 1"
| "compare R (FunctionBreakpoint _) _ = - 1"
| "compare R _ (FunctionBreakpoint _) = 1"
| "compare R (Breakpoint u1 l1 c1) (Breakpoint u2 l2 c2) =
     (if toString R u1 \<noteq> toString R u2
      then localeCompare R (basenameOrAuthority R u1) (basenameOrAuthority R u2)
      else if l1 = l2 then c1 - c2
      else l1 - l2)"

text \<open>A collation for concrete evaluations: code-unit order, the result in \<open>{-1, 0, 1}\<close>.\<close>

fun codeUnitCompare :: "string \<Rightarrow> string \<Rightarrow> int" where
  "codeUnitCompare [] [] = 0"
| "codeUnitCompare [] (y # ys) = - 1"
| "codeUnitCompare (x # xs) [] = 1"
| "codeUnitCompare (x # xs) (y # ys) =
     (if (of_char x :: nat) < of_char y then - 1
      else if (of_char y :: nat) < of_char x then 1
      else codeUnitCompare xs ys)"

text \<open>URIs as plain paths: the string form is the path, the basename its last segment.\<close>

fun lastSegment :: "string \<Rightarrow> string \<Rightarrow> string" where
  "lastSegment acc [] = acc"
| "lastSegment acc (c # cs) = (if c = CHR ''/'' then lastSegment [] cs else lastSegment (acc @ [c]) cs)"

definition pathResources :: "string Resources" where
  "pathResources = \<lparr> toString = (\<lambda>u. u), basenameOrAuthority = lastSegment [],
     localeCompare = codeUnitCompare \<rparr>"

subsection \<open>The debug model as the views read it\<close>

text \<open>
  The model's objects are shared and mutable; the trees hold references to them and
  compare them with \<^verbatim>\<open>===\<close>. A reference is the object's identity: the session id of a
  process, the id of a thread within its process, and so on.
\<close>

record StoppedDetails =
  reason :: string
  description :: "string option"
  details_text :: "string option"

record Thread =
  process :: nat
  threadId :: nat
  stoppedDetails :: "StoppedDetails option"

record Process =
  getId :: nat
  getAllThreads :: "Thread list"

record Scope =
  scopeName :: string
  expensive :: bool

datatype error = Error string

record StackFrame =
  frameId :: nat
  getScopes :: "error + Scope list"

datatype element =
    DebugModel
  | ViewModel
  | ProcessRef nat
  | ThreadRef nat nat
  | StackFrameRef nat
  | ScopeRef Scope
  | VariableRef string
  | ExpressionRef string
  | FunctionBreakpointRef string

definition processRef :: "Process \<Rightarrow> element" where
  "processRef p = ProcessRef (getId p)"

definition threadRef :: "Thread \<Rightarrow> element" where
  "threadRef t = ThreadRef (process t) (threadId t)"

definition stackFrameRef :: "StackFrame \<Rightarrow> element" where
  "stackFrameRef f = StackFrameRef (frameId f)"

record 'u IModel =
  getProcesses :: "Process list"
  getBreakpoints :: "'u IBreakpoint list"
  getExceptionBreakpoints :: "'u IBreakpoint list"
  getFunctionBreakpoints :: "'u IBreakpoint list"

record IViewModel =
  focusedStackFrame :: "StackFrame option"
  focusedThread :: "Thread option"
  focusedProcess :: "Process option"
  isMultiProcessView :: bool

subsection \<open>The tree widget\<close>

text \<open>
  The tree widget belongs to the host. Its state is a type parameter \<open>'t\<close> and its
  methods are the fields of \<open>ITree\<close>; a method that returns a promise gives the new
  state of the widget together with the error the promise is rejected with, if any.
  \<^verbatim>\<open>refresh()\<close> is \<open>refresh T None\<close> and \<^verbatim>\<open>refresh(e, false)\<close> is
  \<open>refresh T (Some e)\<close>.
\<close>

record 't ITree =
  getInput :: "'t \<Rightarrow> element option"
  getExpandedElements :: "'t \<Rightarrow> element list"
  getContentHeight :: "'t \<Rightarrow> nat"
  setInput :: "element \<Rightarrow> 't \<Rightarrow> error option \<times> 't"
  refresh :: "element option \<Rightarrow> 't \<Rightarrow> error option \<times> 't"
  expand :: "element \<Rightarrow> 't \<Rightarrow> error option \<times> 't"
  expandAll :: "element list \<Rightarrow> 't \<Rightarrow> error option \<times> 't"
  reveal :: "element \<Rightarrow> 't \<Rightarrow> error option \<times> 't"
  setSelection :: "element list \<Rightarrow> 't \<Rightarrow> 't"
  clearSelection :: "'t \<Rightarrow> 't"
  setHighlight :: "element \<Rightarrow> 't \<Rightarrow> 't"
  clearHighlight :: "'t \<Rightarrow> 't"

text \<open>The calls a view makes, in the order it makes them.\<close>

datatype call =
    SetInput element
  | Refresh "element option"
  | Expand element
  | ExpandAll "element list"
  | Reveal element
  | SetSelection "element list"
  | ClearSelection
  | SetHighlight element
  | ClearHighlight
  | GetScopes element
  | OnceDidChangeHighlight

subsection \<open>The state of a view\<close>

text \<open>
  What all four classes share: the tree, the expansion state of the panel
  (\<^verbatim>\<open>isExpanded()\<close> of the base class), the viewlet settings object, and, as the
  effects of the file on its surroundings, the calls made so far, the errors passed to
  \<^verbatim>\<open>errors.onUnexpectedError\<close>, and the errors that the promises of the tree and of
  the debug model were rejected with.
\<close>

datatype any = Undefined | Boolean bool | Number int | String string

record 't ViewsViewletPanel =
  tree :: 't
  isExpanded :: bool
  settings :: "string \<rightharpoonup> any"
  calls :: "call list"
  onUnexpectedError :: "error list"
  rejected :: "error list"

subsection \<open>Promises\<close>

text \<open>
  The file runs on one thread, and \<^verbatim>\<open>TPromise\<close> is library code outside it. A promise
  chain is modelled as the sequence of its steps, each a function from the state of the
  view to an outcome and the next state. A rejected promise skips the \<^verbatim>\<open>then\<close>
  callbacks after it. \<^verbatim>\<open>done(c, e)\<close> ends a chain: \<open>e\<close> receives the error of the
  promise it is called on, and \<open>c\<close> its value.
\<close>

type_synonym ('v, 'a) TPromise = "'v \<Rightarrow> (error + 'a) \<times> 'v"

definition TPromise_as :: "'a \<Rightarrow> ('v, 'a) TPromise" where
  "TPromise_as a = (\<lambda>v. (Inr a, v))"

definition then' :: "('v, 'a) TPromise \<Rightarrow> ('a \<Rightarrow> ('v, 'b) TPromise) \<Rightarrow> ('v, 'b) TPromise" where
  "then' p f = (\<lambda>v. case p v of (Inl e, v') \<Rightarrow> (Inl e, v') | (Inr a, v') \<Rightarrow> f a v')"

definition report :: "error \<Rightarrow> ('t, 'x) ViewsViewletPanel_scheme \<Rightarrow> ('t, 'x) ViewsViewletPanel_scheme" where
  "report e v = v\<lparr>onUnexpectedError := onUnexpectedError v @ [e]\<rparr>"

text \<open>Modelled from the spec: the error hook of \<^verbatim>\<open>TPromise\<close> that
  \<^verbatim>\<open>vs/base/common/errors\<close> installs, neither of them part of the file. A rejection that
  no handler of a chain receives (what the completion callback of \<^verbatim>\<open>done\<close> fails with,
  or the rejection of a promise that is dropped) is passed to
  \<^verbatim>\<open>errors.onUnexpectedError\<close>: ``all asynchronous tree operations route failures to a
  single unexpected-error reporting sink''.\<close>

definition done' :: "(('t, 'x) ViewsViewletPanel_scheme, 'a) TPromise
    \<Rightarrow> ('a \<Rightarrow> (('t, 'x) ViewsViewletPanel_scheme, 'b) TPromise)
    \<Rightarrow> (error \<Rightarrow> ('t, 'x) ViewsViewletPanel_scheme \<Rightarrow> ('t, 'x) ViewsViewletPanel_scheme)
    \<Rightarrow> ('t, 'x) ViewsViewletPanel_scheme \<Rightarrow> ('t, 'x) ViewsViewletPanel_scheme" where
  "done' p c e = (\<lambda>v. case p v of
       (Inl err, v') \<Rightarrow> e err v'
     | (Inr a, v') \<Rightarrow> (case c a v' of
           (Inl err, v'') \<Rightarrow> report err v''
         | (Inr _, v'') \<Rightarrow> v''))"

text \<open>\<^verbatim>\<open>sequence\<close> of \<^verbatim>\<open>vs/base/common/async\<close>: the factories run one after the other, and
  the first rejection ends the chain.\<close>

fun sequence :: "('v, unit) TPromise list \<Rightarrow> ('v, unit) TPromise" where
  "sequence [] = TPromise_as ()"
| "sequence (p # ps) = then' p (\<lambda>_. sequence ps)"

text \<open>A call of a tree method that returns a promise, and one of a method that does not.\<close>

definition treePromise :: "call \<Rightarrow> ('t \<Rightarrow> error option \<times> 't)
    \<Rightarrow> (('t, 'x) ViewsViewletPanel_scheme, unit) TPromise" where
  "treePromise c m = (\<lambda>v. case m (tree v) of
       (None, t') \<Rightarrow> (Inr (), v\<lparr>tree := t', calls := calls v @ [c]\<rparr>)
     | (Some e, t') \<Rightarrow> (Inl e, v\<lparr>tree := t', calls := calls v @ [c],
                                  rejected := rejected v @ [e]\<rparr>))"

definition treeCall :: "call \<Rightarrow> ('t \<Rightarrow> 't)
    \<Rightarrow> ('t, 'x) ViewsViewletPanel_scheme \<Rightarrow> ('t, 'x) ViewsViewletPanel_scheme" where
  "treeCall c m v = v\<lparr>tree := m (tree v), calls := calls v @ [c]\<rparr>"

subsection \<open>The refresh scheduler\<close>

text \<open>
  \<^verbatim>\<open>RunOnceScheduler\<close> of \<^verbatim>\<open>vs/base/common/async\<close> is not part of the file; the views
  only construct it and call \<^verbatim>\<open>schedule\<close> and \<^verbatim>\<open>isScheduled\<close>. The definitions of this
  subsection follow the specification's description of it.
\<close>

text \<open>Modelled from the spec: the state of a \<^verbatim>\<open>RunOnceScheduler\<close>, ``a single-shot
  delayed action'': its default delay, and the due times of the host timers that will
  run the action.\<close>

record RunOnceScheduler =
  timeout :: nat
  timers :: "nat list"

text \<open>Modelled from the spec: \<^verbatim>\<open>RunOnceScheduler.isScheduled\<close>, whether a run is
  pending.\<close>

definition isScheduled :: "RunOnceScheduler \<Rightarrow> bool" where
  "isScheduled s = (timers s \<noteq> [])"

text \<open>Modelled from the spec: \<^verbatim>\<open>RunOnceScheduler.cancel\<close> and the host's \<^verbatim>\<open>setTimeout\<close>
  for the scheduler's action.\<close>

definition cancel :: "RunOnceScheduler \<Rightarrow> RunOnceScheduler" where
  "cancel s = s\<lparr>timers := []\<rparr>"

definition setTimeout :: "nat \<Rightarrow> RunOnceScheduler \<Rightarrow> RunOnceScheduler" where
  "setTimeout due s = s\<lparr>timers := timers s @ [due]\<rparr>"

text \<open>Modelled from the spec: \<^verbatim>\<open>RunOnceScheduler.schedule\<close>. ``Scheduling while already
  pending is a no-op (the existing timer is not reset) unless explicitly requested
  immediate (delay = 0).'' \<open>schedule\<close> takes the current time and the delay asked for,
  \<open>None\<close> for a call without argument, which means the default delay.\<close>

definition schedule :: "nat \<Rightarrow> nat option \<Rightarrow> RunOnceScheduler \<Rightarrow> RunOnceScheduler" where
  "schedule now delay s =
     (let d = (case delay of None \<Rightarrow> timeout s | Some d \<Rightarrow> d)
      in if isScheduled s \<and> d \<noteq> 0 then s else setTimeout (now + d) (cancel s))"

text \<open>The three views that own a scheduler keep it in the field \<open>scheduler\<close>
  (\<^verbatim>\<open>onFocusStackFrameScheduler\<close>, \<^verbatim>\<open>onWatchExpressionsUpdatedScheduler\<close>,
  \<^verbatim>\<open>onCallStackChangeScheduler\<close> in the source).\<close>

record 't ScheduledPanel = "'t ViewsViewletPanel" +
  scheduler :: RunOnceScheduler

text \<open>Modelled from the spec: the firing of a \<^verbatim>\<open>RunOnceScheduler\<close>. The host's clock
  reaches \<open>now\<close>: every timer that is due is removed and runs the scheduler's action
  once.\<close>

definition tick :: "nat \<Rightarrow> (('t, 'x) ScheduledPanel_scheme \<Rightarrow> ('t, 'x) ScheduledPanel_scheme)
    \<Rightarrow> ('t, 'x) ScheduledPanel_scheme \<Rightarrow> ('t, 'x) ScheduledPanel_scheme" where
  "tick now runner v =
     (let due = filter (\<lambda>d. d \<le> now) (timers (scheduler v));
          later = filter (\<lambda>d. \<not> d \<le> now) (timers (scheduler v))
      in (runner ^^ length due) (v\<lparr>scheduler := (scheduler v)\<lparr>timers := later\<rparr>\<rparr>))"

subsection \<open>The variables view\<close>

record 't VariablesView = "'t ScheduledPanel" +
  expandedElements :: "element list"

definition stackFrame_getScopes :: "StackFrame \<Rightarrow> (('t, 'x) ViewsViewletPanel_scheme, Scope list) TPromise" where
  "stackFrame_getScopes sf = (\<lambda>v. (getScopes sf,
     v\<lparr>calls := calls v @ [GetScopes (stackFrameRef sf)],
       rejected := rejected v @ (case getScopes sf of Inl e \<Rightarrow> [e] | Inr _ \<Rightarrow> [])\<rparr>))"

text \<open>The action of \<^verbatim>\<open>onFocusStackFrameScheduler\<close>, delay 400, from the innermost
  callback outwards: the expansion of the first scope, the callback that runs after the
  refresh, and the action itself.\<close>

definition expandFirstScope ::
    "'t ITree \<Rightarrow> StackFrame \<Rightarrow> (('t, 'x) ViewsViewletPanel_scheme, unit) TPromise" where
  "expandFirstScope T sf =
     then' (stackFrame_getScopes sf) (\<lambda>scopes.
       case scopes of
         sc # _ \<Rightarrow> if \<not> expensive sc
                   then treePromise (Expand (ScopeRef sc)) (expand T (ScopeRef sc))
                   else TPromise_as ()
       | [] \<Rightarrow> TPromise_as ())"

definition restoreExpansion ::
    "'t ITree \<Rightarrow> IViewModel \<Rightarrow> ('t VariablesView, unit) TPromise" where
  "restoreExpansion T vm = (\<lambda>s.
     let stackFrame = focusedStackFrame vm
     in then' (sequence (map (\<lambda>e. treePromise (Expand e) (expand T e)) (expandedElements s)))
          (\<lambda>_ s'. case stackFrame of
               Some sf \<Rightarrow>
                 if length (getExpandedElements T (tree s')) = 0
                 then expandFirstScope T sf s'
                 else TPromise_as () s'
             | None \<Rightarrow> TPromise_as () s') s)"

definition onFocusStackFrameScheduler ::
    "'t ITree \<Rightarrow> IViewModel \<Rightarrow> 't VariablesView \<Rightarrow> 't VariablesView" where
  "onFocusStackFrameScheduler T vm v =
     (let expanded = getExpandedElements T (tree v);
          v1 = (if length expanded > 0 then v\<lparr>expandedElements := expanded\<rparr> else v);
          v2 = treeCall ClearHighlight (clearHighlight T) v1
      in done'
           (then' (treePromise (Refresh None) (refresh T None)) (\<lambda>_. restoreExpansion T vm))
           TPromise_as report v2)"

text \<open>The listener of \<^verbatim>\<open>viewModel.onDidFocusStackFrame\<close>; \<open>explicit\<close> is the flag of the
  event.\<close>

definition VariablesView_onDidFocusStackFrame ::
    "'t ITree \<Rightarrow> nat \<Rightarrow> bool \<Rightarrow> 't VariablesView \<Rightarrow> 't VariablesView" where
  "VariablesView_onDidFocusStackFrame T now explicit v =
     (if getContentHeight T (tree v) = 0 \<or> explicit
      then v\<lparr>scheduler := schedule now (Some 0) (scheduler v)\<rparr>
      else v\<lparr>scheduler := schedule now None (scheduler v)\<rparr>)"

text \<open>The refresh-and-highlight chain of the listeners of \<^verbatim>\<open>onDidSelectExpression\<close>:
  refresh the element, highlight it, and register a one-shot listener for the end of
  the highlight.\<close>

definition refreshAndHighlight ::
    "'t ITree \<Rightarrow> element \<Rightarrow> ('t, 'x) ViewsViewletPanel_scheme \<Rightarrow> ('t, 'x) ViewsViewletPanel_scheme" where
  "refreshAndHighlight T e v =
     done'
       (then' (treePromise (Refresh (Some e)) (refresh T (Some e))) (\<lambda>_ s.
          let s1 = treeCall (SetHighlight e) (setHighlight T e) s
          in (Inr (), s1\<lparr>calls := calls s1 @ [OnceDidChangeHighlight]\<rparr>)))
       TPromise_as report v"

fun isVariable :: "element \<Rightarrow> bool" where
  "isVariable (VariableRef _) = True"
| "isVariable _ = False"

fun isExpression :: "element \<Rightarrow> bool" where
  "isExpression (ExpressionRef _) = True"
| "isExpression _ = False"


definition VariablesView_onDidSelectExpression ::
    "'t ITree \<Rightarrow> element option \<Rightarrow> 't VariablesView \<Rightarrow> 't VariablesView" where
  "VariablesView_onDidSelectExpression T expression v =
     (case expression of
        None \<Rightarrow> v
      | Some e \<Rightarrow> if \<not> isVariable e then v else refreshAndHighlight T e v)"

subsection \<open>The watch expressions view\<close>

record 't WatchExpressionsView = "'t ScheduledPanel" +
  toReveal :: "element option"

text \<open>The action of \<^verbatim>\<open>onWatchExpressionsUpdatedScheduler\<close>, delay 50.\<close>

definition onWatchExpressionsUpdatedScheduler ::
    "'t ITree \<Rightarrow> 't WatchExpressionsView \<Rightarrow> 't WatchExpressionsView" where
  "onWatchExpressionsUpdatedScheduler T v =
     done' (treePromise (Refresh None) (refresh T None))
       (\<lambda>_ s. case toReveal s of
            Some e \<Rightarrow> if isExpression e then treePromise (Reveal e) (reveal T e) s
                      else TPromise_as () s
          | None \<Rightarrow> TPromise_as () s)
       report v"

text \<open>The two listeners of \<^verbatim>\<open>onDidChangeWatchExpressions\<close>, in the order they are
  registered: the constructor's, which expands the panel for a new expression, and
  \<^verbatim>\<open>renderBody\<close>'s, which arms the scheduler.\<close>

definition WatchExpressionsView_onDidChangeWatchExpressions ::
    "nat \<Rightarrow> element option \<Rightarrow> 't WatchExpressionsView \<Rightarrow> 't WatchExpressionsView" where
  "WatchExpressionsView_onDidChangeWatchExpressions now we v =
     (let v1 = (case we of
                  Some e \<Rightarrow> if isExpression e then v\<lparr>isExpanded := True\<rparr> else v
                | None \<Rightarrow> v);
          v2 = (if \<not> isScheduled (scheduler v1)
                then v1\<lparr>scheduler := schedule now None (scheduler v1)\<rparr>
                else v1)
      in v2\<lparr>toReveal := we\<rparr>)"

definition WatchExpressionsView_onDidSelectExpression ::
    "'t ITree \<Rightarrow> element option \<Rightarrow> 't WatchExpressionsView \<Rightarrow> 't WatchExpressionsView" where
  "WatchExpressionsView_onDidSelectExpression T expression v =
     (case expression of
        None \<Rightarrow> v
      | Some e \<Rightarrow> if \<not> isExpression e then v else refreshAndHighlight T e v)"

subsection \<open>The call stack view\<close>

record 't CallStackView = "'t ScheduledPanel" +
  pauseMessage_shown :: bool
  pauseMessageLabel_text :: string
  pauseMessageLabel_title :: string
  pauseMessageLabel_exception :: bool

datatype treeInput = InputModel | InputProcess Process | InputThread Thread

fun inputRef :: "treeInput \<Rightarrow> element" where
  "inputRef InputModel = DebugModel"
| "inputRef (InputProcess p) = processRef p"
| "inputRef (InputThread t) = threadRef t"

definition newTreeInput :: "IViewModel \<Rightarrow> 'u IModel \<Rightarrow> treeInput" where
  "newTreeInput vm model =
     (let processes = getProcesses model
      in if \<not> isMultiProcessView vm \<and> length processes \<noteq> 0
         then (let threads = getAllThreads (hd processes)
               in if length threads = 1 then InputThread (hd threads)
                  else InputProcess (hd processes))
         else InputModel)"

definition truthy :: "string option \<Rightarrow> bool" where
  "truthy x = (case x of None \<Rightarrow> False | Some s \<Rightarrow> s \<noteq> [])"

definition showPauseMessage :: "StoppedDetails \<Rightarrow> 't CallStackView \<Rightarrow> 't CallStackView" where
  "showPauseMessage sd v =
     (let v1 = v\<lparr>pauseMessageLabel_text :=
                   (if truthy (description sd) then the (description sd)
                    else ''Paused on '' @ reason sd)\<rparr>;
          v2 = (if truthy (details_text sd)
                then v1\<lparr>pauseMessageLabel_title := the (details_text sd)\<rparr> else v1);
          v3 = v2\<lparr>pauseMessageLabel_exception := (reason sd = ''exception'')\<rparr>
      in v3\<lparr>pauseMessage_shown := True\<rparr>)"

definition updateTreeSelection ::
    "'t ITree \<Rightarrow> IViewModel \<Rightarrow> (('t, 'x) ViewsViewletPanel_scheme, unit) TPromise" where
  "updateTreeSelection T vm = (\<lambda>v.
     case getInput T (tree v) of
       None \<Rightarrow> TPromise_as () v
     | Some _ \<Rightarrow>
        (let stackFrame = focusedStackFrame vm;
             thread = focusedThread vm;
             process' = focusedProcess vm
         in case thread of
              None \<Rightarrow>
                (case process' of
                   None \<Rightarrow> TPromise_as () (treeCall ClearSelection (clearSelection T) v)
                 | Some p \<Rightarrow>
                     treePromise (Reveal (processRef p)) (reveal T (processRef p))
                       (treeCall (SetSelection [processRef p]) (setSelection T [processRef p]) v))
            | Some th \<Rightarrow>
                then' (treePromise (ExpandAll [ProcessRef (process th), threadRef th])
                         (expandAll T [ProcessRef (process th), threadRef th]))
                  (\<lambda>_ s. case stackFrame of
                       None \<Rightarrow> TPromise_as () s
                     | Some sf \<Rightarrow>
                         treePromise (Reveal (stackFrameRef sf)) (reveal T (stackFrameRef sf))
                           (treeCall (SetSelection [stackFrameRef sf])
                              (setSelection T [stackFrameRef sf]) s)) v))"

text \<open>The action of \<^verbatim>\<open>onCallStackChangeScheduler\<close>, delay 50.\<close>

definition onCallStackChangeScheduler ::
    "'t ITree \<Rightarrow> IViewModel \<Rightarrow> 'u IModel \<Rightarrow> 't CallStackView \<Rightarrow> 't CallStackView" where
  "onCallStackChangeScheduler T vm model v =
     (let input = newTreeInput vm model;
          v1 = (case input of
                  InputThread t \<Rightarrow>
                    (case stoppedDetails t of
                       Some sd \<Rightarrow> showPauseMessage sd v
                     | None \<Rightarrow> v\<lparr>pauseMessage_shown := False\<rparr>)
                | _ \<Rightarrow> v\<lparr>pauseMessage_shown := False\<rparr>)
      in done'
           (if getInput T (tree v1) = Some (inputRef input)
            then treePromise (Refresh None) (refresh T None)
            else treePromise (SetInput (inputRef input)) (setInput T (inputRef input)))
           (\<lambda>_. updateTreeSelection T vm)
           report v1)"

definition CallStackView_onDidChangeCallStack :: "nat \<Rightarrow> 't CallStackView \<Rightarrow> 't CallStackView" where
  "CallStackView_onDidChangeCallStack now v =
     (if \<not> isScheduled (scheduler v)
      then v\<lparr>scheduler := schedule now None (scheduler v)\<rparr>
      else v)"

definition CallStackView_onDidFocusStackFrame ::
    "'t ITree \<Rightarrow> IViewModel \<Rightarrow> 't CallStackView \<Rightarrow> 't CallStackView" where
  "CallStackView_onDidFocusStackFrame T vm v =
     done' (updateTreeSelection T vm) TPromise_as report v"

text \<open>The last statement of \<^verbatim>\<open>renderBody\<close>: a view opened on a stopped session schedules
  its update.\<close>

datatype State = Inactive | Initializing | Stopped | Running

definition CallStackView_renderBody :: "nat \<Rightarrow> State \<Rightarrow> 't CallStackView \<Rightarrow> 't CallStackView" where
  "CallStackView_renderBody now state v =
     (if state = Stopped then v\<lparr>scheduler := schedule now None (scheduler v)\<rparr> else v)"

subsection \<open>The breakpoints view\<close>

text \<open>The breakpoints view has no scheduler. Its listener of
  \<^verbatim>\<open>onDidChangeBreakpoints\<close> is registered in the constructor, before \<^verbatim>\<open>renderBody\<close>
  creates the tree, so the tree may be absent.\<close>

record 't BreakpointsView = "'t option ViewsViewletPanel" +
  minimumBodySize :: nat
  maximumBodySize :: enat

definition MAX_VISIBLE_FILES :: nat where
  "MAX_VISIBLE_FILES = 9"

definition getExpandedBodySize :: "'u IModel \<Rightarrow> nat" where
  "getExpandedBodySize model =
     (let length' = length (getBreakpoints model) + length (getExceptionBreakpoints model)
                    + length (getFunctionBreakpoints model)
      in min MAX_VISIBLE_FILES length' * 22)"

text \<open>The promise of \<^verbatim>\<open>this.tree.refresh()\<close> is dropped: the file attaches nothing to
  it, and its rejection goes to \<^verbatim>\<open>errors.onUnexpectedError\<close> through the error hook.\<close>

definition onBreakpointsChange ::
    "'t ITree \<Rightarrow> 'u IModel \<Rightarrow> 't BreakpointsView \<Rightarrow> 't BreakpointsView" where
  "onBreakpointsChange T model v =
     (let v1 = v\<lparr>minimumBodySize := getExpandedBodySize model\<rparr>;
          v2 = (if maximumBodySize v1 < \<infinity>
                then v1\<lparr>maximumBodySize := enat (minimumBodySize v1)\<rparr> else v1)
      in case tree v2 of
           None \<Rightarrow> v2
         | Some t \<Rightarrow>
             (case refresh T None t of
                (None, t') \<Rightarrow> v2\<lparr>tree := Some t', calls := calls v2 @ [Refresh None]\<rparr>
              | (Some e, t') \<Rightarrow> report e (v2\<lparr>tree := Some t', calls := calls v2 @ [Refresh None],
                                            rejected := rejected v2 @ [e]\<rparr>)))"


subsection \<open>Shutdown\<close>

text \<open>Each class stores the negation of \<^verbatim>\<open>isExpanded()\<close> under its own key of the
  viewlet settings and then calls \<^verbatim>\<open>super.shutdown()\<close>, which is a parameter here.\<close>

definition VariablesView_MEMENTO :: string where
  "VariablesView_MEMENTO = ''variablesview.memento''"

definition WatchExpressionsView_MEMENTO :: string where
  "WatchExpressionsView_MEMENTO = ''watchexpressionsview.memento''"

definition CallStackView_MEMENTO :: string where
  "CallStackView_MEMENTO = ''callstackview.memento''"

definition BreakpointsView_MEMENTO :: string where
  "BreakpointsView_MEMENTO = ''breakopintsview.memento''"

definition VariablesView_shutdown ::
    "('t VariablesView \<Rightarrow> 't VariablesView) \<Rightarrow> 't VariablesView \<Rightarrow> 't VariablesView" where
  "VariablesView_shutdown super_shutdown v =
     super_shutdown (v\<lparr>settings := (settings v)(VariablesView_MEMENTO \<mapsto> Boolean (\<not> isExpanded v))\<rparr>)"

definition WatchExpressionsView_shutdown ::
    "('t WatchExpressionsView \<Rightarrow> 't WatchExpressionsView) \<Rightarrow> 't WatchExpressionsView
      \<Rightarrow> 't WatchExpressionsView" where
  "WatchExpressionsView_shutdown super_shutdown v =
     super_shutdown (v\<lparr>settings := (settings v)(WatchExpressionsView_MEMENTO \<mapsto> Boolean (\<not> isExpanded v))\<rparr>)"

definition CallStackView_shutdown ::
    "('t CallStackView \<Rightarrow> 't CallStackView) \<Rightarrow> 't CallStackView \<Rightarrow> 't CallStackView" where
  "CallStackView_shutdown super_shutdown v =
     super_shutdown (v\<lparr>settings := (settings v)(CallStackView_MEMENTO \<mapsto> Boolean (\<not> isExpanded v))\<rparr>)"

definition BreakpointsView_shutdown ::
    "('t BreakpointsView \<Rightarrow> 't BreakpointsView) \<Rightarrow> 't BreakpointsView \<Rightarrow> 't BreakpointsView" where
  "BreakpointsView_shutdown super_shutdown v =
     super_shutdown (v\<lparr>settings := (settings v)(BreakpointsView_MEMENTO \<mapsto> Boolean (\<not> isExpanded v))\<rparr>)"

subsection \<open>The views as their constructors leave them\<close>

text \<open>The schedulers with the delays the constructors give them, and the views once
  \<^verbatim>\<open>renderBody\<close> has created the tree; the settings object and the tree come from the
  host. The breakpoints view exists before its tree does.\<close>

definition VariablesView_scheduler :: RunOnceScheduler where
  "VariablesView_scheduler = \<lparr> timeout = 400, timers = [] \<rparr>"

definition WatchExpressionsView_scheduler :: RunOnceScheduler where
  "WatchExpressionsView_scheduler = \<lparr> timeout = 50, timers = [] \<rparr>"

definition CallStackView_scheduler :: RunOnceScheduler where
  "CallStackView_scheduler = \<lparr> timeout = 50, timers = [] \<rparr>"

definition VariablesView_new :: "(string \<rightharpoonup> any) \<Rightarrow> 't \<Rightarrow> 't VariablesView" where
  "VariablesView_new viewletSettings t =
     \<lparr> tree = t, isExpanded = True, settings = viewletSettings, calls = [],
       onUnexpectedError = [], rejected = [], scheduler = VariablesView_scheduler,
       expandedElements = [] \<rparr>"

definition WatchExpressionsView_new :: "(string \<rightharpoonup> any) \<Rightarrow> 't \<Rightarrow> 't WatchExpressionsView" where
  "WatchExpressionsView_new viewletSettings t =
     \<lparr> tree = t, isExpanded = True, settings = viewletSettings, calls = [],
       onUnexpectedError = [], rejected = [], scheduler = WatchExpressionsView_scheduler,
       toReveal = None \<rparr>"

definition CallStackView_new :: "(string \<rightharpoonup> any) \<Rightarrow> 't \<Rightarrow> 't CallStackView" where
  "CallStackView_new viewletSettings t =
     \<lparr> tree = t, isExpanded = True, settings = viewletSettings, calls = [],
       onUnexpectedError = [], rejected = [], scheduler = CallStackView_scheduler,
       pauseMessage_shown = False, pauseMessageLabel_text = [], pauseMessageLabel_title = [],
       pauseMessageLabel_exception = False \<rparr>"

definition BreakpointsView_new ::
    "(string \<rightharpoonup> any) \<Rightarrow> 'u IModel \<Rightarrow> 't option \<Rightarrow> 't BreakpointsView" where
  "BreakpointsView_new viewletSettings model t =
     \<lparr> tree = t, isExpanded = True, settings = viewletSettings, calls = [],
       onUnexpectedError = [], rejected = [],
       minimumBodySize = getExpandedBodySize model,
       maximumBodySize = enat (getExpandedBodySize model) \<rparr>"

subsection \<open>Runs of a view\<close>

text \<open>
  A view lives through the events the host delivers to it, one at a time: the
  notifications it listens to, and the host's timer ticks. Each event carries the time
  and the part of the debug service the listener reads.
\<close>

datatype VariablesEvent =
    VDidFocusStackFrame nat bool
  | VDidSelectExpression "element option"
  | VTimer nat IViewModel

fun VariablesView_step :: "'t ITree \<Rightarrow> VariablesEvent \<Rightarrow> 't VariablesView \<Rightarrow> 't VariablesView" where
  "VariablesView_step T (VDidFocusStackFrame now explicit) v =
     VariablesView_onDidFocusStackFrame T now explicit v"
| "VariablesView_step T (VDidSelectExpression e) v = VariablesView_onDidSelectExpression T e v"
| "VariablesView_step T (VTimer now vm) v = tick now (onFocusStackFrameScheduler T vm) v"

datatype WatchEvent =
    WDidChangeWatchExpressions nat "element option"
  | WDidSelectExpression "element option"
  | WTimer nat

fun WatchExpressionsView_step ::
    "'t ITree \<Rightarrow> WatchEvent \<Rightarrow> 't WatchExpressionsView \<Rightarrow> 't WatchExpressionsView" where
  "WatchExpressionsView_step T (WDidChangeWatchExpressions now we) v =
     WatchExpressionsView_onDidChangeWatchExpressions now we v"
| "WatchExpressionsView_step T (WDidSelectExpression e) v =
     WatchExpressionsView_onDidSelectExpression T e v"
| "WatchExpressionsView_step T (WTimer now) v = tick now (onWatchExpressionsUpdatedScheduler T) v"

datatype 'u CallStackEvent =
    CDidChangeCallStack nat
  | CDidFocusStackFrame IViewModel
  | CRenderBody nat State
  | CTimer nat IViewModel "'u IModel"

fun CallStackView_step :: "'t ITree \<Rightarrow> 'u CallStackEvent \<Rightarrow> 't CallStackView \<Rightarrow> 't CallStackView" where
  "CallStackView_step T (CDidChangeCallStack now) v = CallStackView_onDidChangeCallStack now v"
| "CallStackView_step T (CDidFocusStackFrame vm) v = CallStackView_onDidFocusStackFrame T vm v"
| "CallStackView_step T (CRenderBody now state) v = CallStackView_renderBody now state v"
| "CallStackView_step T (CTimer now vm model) v = tick now (onCallStackChangeScheduler T vm model) v"

fun isRefresh :: "call \<Rightarrow> bool" where
  "isRefresh (Refresh _) = True"
| "isRefresh _ = False"

definition refreshes :: "call list \<Rightarrow> nat" where
  "refreshes cs = length (filter isRefresh cs)"

text \<open>An event that belongs to a burst of change notifications whose timer is due at
  \<open>due\<close>: a notification that does not ask for an immediate run, or a tick of the
  host's clock, before that time.\<close>

fun VariablesView_inBurst :: "nat \<Rightarrow> VariablesEvent \<Rightarrow> bool" where
  "VariablesView_inBurst due (VDidFocusStackFrame now explicit) = (now < due \<and> \<not> explicit)"
| "VariablesView_inBurst due (VTimer now vm) = (now < due)"
| "VariablesView_inBurst due (VDidSelectExpression e) = False"

fun WatchExpressionsView_inBurst :: "nat \<Rightarrow> WatchEvent \<Rightarrow> bool" where
  "WatchExpressionsView_inBurst due (WDidChangeWatchExpressions now we) = (now < due)"
| "WatchExpressionsView_inBurst due (WTimer now) = (now < due)"
| "WatchExpressionsView_inBurst due (WDidSelectExpression e) = False"

fun CallStackView_inBurst :: "nat \<Rightarrow> 'u CallStackEvent \<Rightarrow> bool" where
  "CallStackView_inBurst due (CDidChangeCallStack now) = (now < due)"
| "CallStackView_inBurst due (CTimer now vm model) = (now < due)"
| "CallStackView_inBurst due (CDidFocusStackFrame vm) = False"
| "CallStackView_inBurst due (CRenderBody now state) = False"

text \<open>The action of the variables view as the specification words it: re-expanding
  every element of a list, one after the other, and the default expansion of the first
  scope of a frame, given the elements expanded by then.\<close>

fun expandEach :: "'t ITree \<Rightarrow> element list \<Rightarrow> 't \<Rightarrow> error option \<times> 't" where
  "expandEach T [] t = (None, t)"
| "expandEach T (e # es) t =
     (case expand T e t of
        (None, t') \<Rightarrow> expandEach T es t'
      | (Some err, t') \<Rightarrow> (Some err, t'))"

definition defaultExpansion :: "StackFrame option \<Rightarrow> element list \<Rightarrow> call list" where
  "defaultExpansion stackFrame expandedNow =
     (case stackFrame of
        None \<Rightarrow> []
      | Some sf \<Rightarrow>
          if expandedNow \<noteq> [] then []
          else GetScopes (stackFrameRef sf) #
            (case getScopes sf of
               Inr (sc # _) \<Rightarrow> if expensive sc then [] else [Expand (ScopeRef sc)]
             | _ \<Rightarrow> []))"

text \<open>How many elements of the list \<open>expandEach\<close> gets to: all of them, or those up to
  and including the first whose expansion is rejected.\<close>

fun attempted :: "'t ITree \<Rightarrow> element list \<Rightarrow> 't \<Rightarrow> nat" where
  "attempted T [] t = 0"
| "attempted T (e # es) t =
     (case expand T e t of
        (None, t') \<Rightarrow> Suc (attempted T es t')
      | (Some err, t') \<Rightarrow> 1)"

text \<open>The default expansion on the tree itself: with a focused frame and nothing
  expanded, the first scope of the frame is expanded if there is one and it is not
  expensive; the outcome is the error of the scopes request or of the expansion, if
  any, and the tree.\<close>

definition expandDefault :: "'t ITree \<Rightarrow> StackFrame option \<Rightarrow> 't \<Rightarrow> error option \<times> 't" where
  "expandDefault T stackFrame t =
     (case stackFrame of
        None \<Rightarrow> (None, t)
      | Some sf \<Rightarrow>
          if getExpandedElements T t \<noteq> [] then (None, t)
          else (case getScopes sf of
                  Inl e \<Rightarrow> (Some e, t)
                | Inr [] \<Rightarrow> (None, t)
                | Inr (sc # _) \<Rightarrow>
                    if expensive sc then (None, t) else expand T (ScopeRef sc) t))"

definition errorsOf :: "error option \<Rightarrow> error list" where
  "errorsOf r = (case r of None \<Rightarrow> [] | Some e \<Rightarrow> [e])"



fun isSetInput :: "call \<Rightarrow> bool" where
  "isSetInput (SetInput _) = True"
| "isSetInput _ = False"

subsection \<open>A tree for concrete evaluations\<close>

text \<open>A small widget state on which the calls of the views can be evaluated: every
  method succeeds, except that \<open>refresh\<close> is rejected with \<open>refreshError\<close> when that is
  set.\<close>

record SimpleTree =
  input :: "element option"
  expandedNodes :: "element list"
  selection :: "element list"
  highlight :: "element option"
  contentHeight :: nat
  refreshError :: "error option"

definition simpleTree :: "SimpleTree ITree" where
  "simpleTree = \<lparr>
     getInput = input,
     getExpandedElements = expandedNodes,
     getContentHeight = contentHeight,
     setInput = (\<lambda>e t. (None, t\<lparr>input := Some e, expandedNodes := [], selection := []\<rparr>)),
     refresh = (\<lambda>_ t. (refreshError t, t)),
     expand = (\<lambda>e t. (None, if e \<in> set (expandedNodes t) then t
                              else t\<lparr>expandedNodes := expandedNodes t @ [e]\<rparr>)),
     expandAll = (\<lambda>es t. (None, t\<lparr>expandedNodes :=
                              expandedNodes t @ filter (\<lambda>e. e \<notin> set (expandedNodes t)) es\<rparr>)),
     reveal = (\<lambda>_ t. (None, t)),
     setSelection = (\<lambda>es t. t\<lparr>selection := es\<rparr>),
     clearSelection = (\<lambda>t. t\<lparr>selection := []\<rparr>),
     setHighlight = (\<lambda>e t. t\<lparr>highlight := Some e\<rparr>),
     clearHighlight = (\<lambda>t. t\<lparr>highlight := None\<rparr>) \<rparr>"

text \<open>The same widget, except that it no longer has the variable \<open>gone\<close> and rejects
  its expansion.\<close>

definition staleTree :: "SimpleTree ITree" where
  "staleTree = simpleTree\<lparr> expand := (\<lambda>e t.
     if e = VariableRef ''gone'' then (Some (Error ''element not found''), t)
     else expand simpleTree e t) \<rparr>"

definition emptyTree :: SimpleTree where
  "emptyTree = \<lparr> input = None, expandedNodes = [], selection = [], highlight = None,
     contentHeight = 0, refreshError = None \<rparr>"

definition noFocus :: IViewModel where
  "noFocus = \<lparr> focusedStackFrame = None, focusedThread = None, focusedProcess = None,
     isMultiProcessView = False \<rparr>"

definition sampleModel :: "string IModel" where
  "sampleModel = \<lparr> getProcesses = [],
     getBreakpoints = [Breakpoint ''/a/x.ts'' 7 1, Breakpoint ''/a/x.ts'' 9 1],
     getExceptionBreakpoints = [ExceptionBreakpoint ''all''],
     getFunctionBreakpoints = [] \<rparr>"

definition visibleTree :: SimpleTree where
  "visibleTree = emptyTree\<lparr>contentHeight := 22\<rparr>"

text \<open>A stopped session of one process with one thread.\<close>

definition localFrame :: StackFrame where
  "localFrame = \<lparr> frameId = 1,
     getScopes = Inr [\<lparr> scopeName = ''Local'', expensive = False \<rparr>,
                     \<lparr> scopeName = ''Global'', expensive = True \<rparr>] \<rparr>"

definition mainThread :: Thread where
  "mainThread = \<lparr> process = 1, threadId = 1,
     stoppedDetails = Some \<lparr> reason = ''breakpoint'', description = None, details_text = None \<rparr> \<rparr>"

definition nodeProcess :: Process where
  "nodeProcess = \<lparr> getId = 1, getAllThreads = [mainThread] \<rparr>"

definition singleProcessModel :: "string IModel" where
  "singleProcessModel = sampleModel\<lparr>getProcesses := [nodeProcess]\<rparr>"

section \<open>Properties\<close>

subsection \<open>Helper facts\<close>

lemma codeUnitCompare_swap: "codeUnitCompare y x = - codeUnitCompare x y"
  by (induction x y rule: codeUnitCompare.induct) auto

lemma pathResources_swap:
  "sgn (localeCompare pathResources y x) = - sgn (localeCompare pathResources x y)"
proof -
  have "localeCompare pathResources y x = - localeCompare pathResources x y"
    unfolding pathResources_def Resources.simps by (rule codeUnitCompare_swap)
  then show ?thesis by simp
qed

subsection \<open>Schedulers, promise chains and runs\<close>


lemma schedule_timeout: "timeout (schedule now d s) = timeout s"
  by (simp add: schedule_def setTimeout_def cancel_def Let_def)

lemma schedule_length:
  "length (timers s) \<le> Suc 0 \<Longrightarrow> length (timers (schedule now d s)) \<le> Suc 0"
  by (simp add: schedule_def setTimeout_def cancel_def Let_def)

text \<open>A projection of the state that every step of a chain keeps is kept by the chain.\<close>

lemma then_keeps:
  assumes "\<And>v. g (snd (p v)) = g v"
    and "\<And>a v. g (snd (f a v)) = g v"
  shows "g (snd (then' p f v)) = g v"
proof (cases "p v")
  case (Pair r v')
  then have v': "g v' = g v" using assms(1) [of v] by simp
  show ?thesis
  proof (cases r)
    case (Inl e)
    with Pair v' show ?thesis by (simp add: then'_def)
  next
    case (Inr a)
    with Pair v' assms(2) [of a v'] show ?thesis by (simp add: then'_def)
  qed
qed

lemma sequence_keeps:
  assumes "\<And>p v. p \<in> set ps \<Longrightarrow> g (snd (p v)) = g v"
  shows "g (snd (sequence ps v)) = g v"
  using assms
proof (induction ps arbitrary: v)
  case Nil
  then show ?case by (simp add: TPromise_as_def)
next
  case (Cons p ps)
  show ?case unfolding sequence.simps
    by (rule then_keeps) (simp_all add: Cons)
qed

lemma done_keeps:
  assumes "\<And>v. g (snd (p v)) = g v"
    and "\<And>a v. g (snd (c a v)) = g v"
    and "\<And>e v. g (h e v) = g v"
    and "\<And>e v. g (report e v) = g v"
  shows "g (done' p c h v) = g v"
proof (cases "p v")
  case (Pair r v')
  then have v': "g v' = g v" using assms(1) [of v] by simp
  show ?thesis
  proof (cases r)
    case (Inl e)
    with Pair v' assms(3) show ?thesis by (simp add: done'_def)
  next
    case (Inr a)
    show ?thesis
    proof (cases "c a v'")
      case P2: (Pair r2 v2)
      then have "g v2 = g v'" using assms(2) [of a v'] by simp
      with Pair Inr P2 v' assms(4) show ?thesis
        by (cases r2) (simp_all add: done'_def)
    qed
  qed
qed

lemma treePromise_scheduler: "scheduler (snd (treePromise c m v)) = scheduler v"
  by (simp add: treePromise_def split: prod.splits option.splits)

lemma expandFirstScope_scheduler: "scheduler (snd (expandFirstScope T sf v)) = scheduler v"
  unfolding expandFirstScope_def
  by (rule then_keeps)
     (auto simp: stackFrame_getScopes_def treePromise_scheduler TPromise_as_def split: list.splits)

lemma restoreExpansion_scheduler: "scheduler (snd (restoreExpansion T vm v)) = scheduler v"
  unfolding restoreExpansion_def Let_def
  by (rule then_keeps, rule sequence_keeps)
     (auto simp: treePromise_scheduler expandFirstScope_scheduler TPromise_as_def
        split: option.splits)

lemma onFocusStackFrameScheduler_scheduler:
  "scheduler (onFocusStackFrameScheduler T vm v) = scheduler v"
proof -
  have "scheduler (onFocusStackFrameScheduler T vm v) =
        scheduler (treeCall ClearHighlight (clearHighlight T)
          (if 0 < length (getExpandedElements T (tree v))
           then v\<lparr>expandedElements := getExpandedElements T (tree v)\<rparr> else v))"
    unfolding onFocusStackFrameScheduler_def Let_def
    by (rule done_keeps, rule then_keeps)
       (simp_all add: treePromise_scheduler restoreExpansion_scheduler TPromise_as_def report_def)
  then show ?thesis by (simp add: treeCall_def)
qed

lemma onWatchExpressionsUpdatedScheduler_scheduler:
  "scheduler (onWatchExpressionsUpdatedScheduler T v) = scheduler v"
  unfolding onWatchExpressionsUpdatedScheduler_def
  by (rule done_keeps)
     (auto simp: treePromise_scheduler TPromise_as_def report_def split: option.splits)

lemma updateTreeSelection_scheduler:
  "scheduler (snd (updateTreeSelection T vm v)) = scheduler v"
  unfolding updateTreeSelection_def Let_def
  by (auto simp: treePromise_scheduler TPromise_as_def treeCall_def
      intro!: then_keeps split: option.splits)

lemma onCallStackChangeScheduler_scheduler:
  "scheduler (onCallStackChangeScheduler T vm model v) = scheduler v"
proof -
  have "scheduler (onCallStackChangeScheduler T vm model v) = scheduler
     (case newTreeInput vm model of
                  InputThread t \<Rightarrow>
                    (case stoppedDetails t of
                       Some sd \<Rightarrow> showPauseMessage sd v
                     | None \<Rightarrow> v\<lparr>pauseMessage_shown := False\<rparr>)
                | _ \<Rightarrow> v\<lparr>pauseMessage_shown := False\<rparr>)"
    unfolding onCallStackChangeScheduler_def Let_def
    by (rule done_keeps)
      (auto simp: treePromise_scheduler updateTreeSelection_scheduler report_def)
  then show ?thesis
    by (simp add: showPauseMessage_def Let_def split: treeInput.splits option.splits)
qed


lemma then_after:
  assumes "\<And>a v. g (snd (f a v)) = g v"
  shows "g (snd (then' p f v)) = g (snd (p v))"
proof (cases "p v")
  case (Pair r v')
  show ?thesis
  proof (cases r)
    case (Inl e)
    with Pair show ?thesis by (simp add: then'_def)
  next
    case (Inr a)
    with Pair assms [of a v'] show ?thesis by (simp add: then'_def)
  qed
qed

lemma done_after:
  assumes "\<And>a v. g (snd (c a v)) = g v"
    and "\<And>e v. g (h e v) = g v"
    and "\<And>e v. g (report e v) = g v"
  shows "g (done' p c h v) = g (snd (p v))"
proof (cases "p v")
  case (Pair r v')
  show ?thesis
  proof (cases r)
    case (Inl e)
    with Pair assms(2) show ?thesis by (simp add: done'_def)
  next
    case (Inr a)
    show ?thesis
    proof (cases "c a v'")
      case P2: (Pair r2 v2)
      then have "g v2 = g v'" using assms(1) [of a v'] by simp
      with Pair Inr P2 assms(3) show ?thesis
        by (cases r2) (simp_all add: done'_def)
    qed
  qed
qed

lemma filter_length_le1: "length xs \<le> Suc 0 \<Longrightarrow> length (filter P xs) \<le> Suc 0"
  by (rule le_trans [OF length_filter_le])

lemma funpow_keeps:
  assumes "\<And>v. g (r v) = g v"
  shows "g ((r ^^ n) v) = g v"
  by (induction n) (simp_all add: assms)

lemma tick_timers:
  assumes "\<And>v. scheduler (r v) = scheduler v"
  shows "scheduler (tick now r v) = (scheduler v)\<lparr>timers := filter (\<lambda>d. \<not> d \<le> now) (timers (scheduler v))\<rparr>"
  unfolding tick_def Let_def
  by (simp add: funpow_keeps [where g = scheduler, OF assms])

lemma tick_early:
  assumes "\<forall>d \<in> set (timers (scheduler v)). now < d"
  shows "tick now r v = v"
proof -
  have "filter (\<lambda>d. d \<le> now) (timers (scheduler v)) = []"
    using assms by (auto simp: filter_empty_conv)
  moreover have "filter (\<lambda>d. \<not> d \<le> now) (timers (scheduler v)) = timers (scheduler v)"
    using assms by (auto simp: filter_id_conv)
  ultimately show ?thesis by (simp add: tick_def)
qed

lemma tick_due:
  assumes "timers (scheduler v) = [d]" and "d \<le> now"
  shows "tick now r v = r (v\<lparr>scheduler := (scheduler v)\<lparr>timers := []\<rparr>\<rparr>)"
  using assms by (simp add: tick_def)

lemma refreshAndHighlight_scheduler: "scheduler (refreshAndHighlight T e v) = scheduler v"
  unfolding refreshAndHighlight_def
  by (rule done_keeps)
     (auto simp: treePromise_scheduler TPromise_as_def report_def treeCall_def Let_def
        intro!: then_keeps)

lemma VariablesView_step_length:
  assumes "length (timers (scheduler v)) \<le> Suc 0"
  shows "length (timers (scheduler (VariablesView_step T ev v))) \<le> Suc 0"
proof (cases ev)
  case (VDidFocusStackFrame now explicit)
  with assms show ?thesis
    by (simp add: VariablesView_onDidFocusStackFrame_def schedule_length)
next
  case (VDidSelectExpression e)
  with assms show ?thesis
    by (simp add: VariablesView_onDidSelectExpression_def refreshAndHighlight_scheduler
        split: option.splits)
next
  case (VTimer now vm)
  have "length (filter (\<lambda>d. \<not> d \<le> now) (timers (scheduler v))) \<le> Suc 0"
    using assms by (simp add: filter_length_le1)
  with VTimer assms show ?thesis
    by (simp add: tick_timers [OF onFocusStackFrameScheduler_scheduler])
qed

lemma WatchExpressionsView_step_length:
  assumes "length (timers (scheduler v)) \<le> Suc 0"
  shows "length (timers (scheduler (WatchExpressionsView_step T ev v))) \<le> Suc 0"
proof (cases ev)
  case (WDidChangeWatchExpressions now we)
  with assms show ?thesis
    by (auto simp: WatchExpressionsView_onDidChangeWatchExpressions_def Let_def schedule_length
        split: option.splits)
next
  case (WDidSelectExpression e)
  with assms show ?thesis
    by (simp add: WatchExpressionsView_onDidSelectExpression_def refreshAndHighlight_scheduler
        split: option.splits)
next
  case (WTimer now)
  have "length (filter (\<lambda>d. \<not> d \<le> now) (timers (scheduler v))) \<le> Suc 0"
    using assms by (simp add: filter_length_le1)
  with WTimer assms show ?thesis
    by (simp add: tick_timers [OF onWatchExpressionsUpdatedScheduler_scheduler])
qed

lemma CallStackView_onDidFocusStackFrame_scheduler:
  "scheduler (CallStackView_onDidFocusStackFrame T vm v) = scheduler v"
  unfolding CallStackView_onDidFocusStackFrame_def
  by (rule done_keeps) (auto simp: updateTreeSelection_scheduler TPromise_as_def report_def)

lemma CallStackView_step_length:
  assumes "length (timers (scheduler v)) \<le> Suc 0"
  shows "length (timers (scheduler (CallStackView_step T ev v))) \<le> Suc 0"
proof (cases ev)
  case (CDidChangeCallStack now)
  with assms show ?thesis
    by (simp add: CallStackView_onDidChangeCallStack_def schedule_length)
next
  case (CDidFocusStackFrame vm)
  with assms show ?thesis
    by (simp add: CallStackView_onDidFocusStackFrame_scheduler)
next
  case (CRenderBody now state)
  with assms show ?thesis
    by (simp add: CallStackView_renderBody_def schedule_length)
next
  case (CTimer now vm model)
  have "length (filter (\<lambda>d. \<not> d \<le> now) (timers (scheduler v))) \<le> Suc 0"
    using assms by (simp add: filter_length_le1)
  with CTimer assms show ?thesis
    by (simp add: tick_timers [OF onCallStackChangeScheduler_scheduler])
qed

lemma fold_invariant:
  assumes "P v" and "\<And>e v. P v \<Longrightarrow> P (step e v)"
  shows "P (fold step evs v)"
  using assms(1) by (induction evs arbitrary: v) (simp_all add: assms(2))

lemma refreshes_append: "refreshes (xs @ ys) = refreshes xs + refreshes ys"
  by (simp add: refreshes_def)

lemma refreshes_single: "refreshes [c] = (if isRefresh c then 1 else 0)"
  by (simp add: refreshes_def)

lemma treePromise_calls: "calls (snd (treePromise c m v)) = calls v @ [c]"
  by (simp add: treePromise_def split: prod.splits option.splits)

lemma treePromise_refreshes:
  "refreshes (calls (snd (treePromise c m v))) = refreshes (calls v) + (if isRefresh c then 1 else 0)"
  by (simp add: treePromise_calls refreshes_append refreshes_single)

lemma updateTreeSelection_refreshes:
  "refreshes (calls (snd (updateTreeSelection T vm v))) = refreshes (calls v)"
  unfolding updateTreeSelection_def Let_def
  by (auto simp: treePromise_refreshes TPromise_as_def treeCall_def refreshes_append
        refreshes_single
      intro!: then_keeps [where g = "\<lambda>v. refreshes (calls v)"] split: option.splits)

lemma expandFirstScope_refreshes:
  "refreshes (calls (snd (expandFirstScope T sf v))) = refreshes (calls v)"
  unfolding expandFirstScope_def
  by (rule then_keeps [where g = "\<lambda>v. refreshes (calls v)"])
     (auto simp: stackFrame_getScopes_def treePromise_refreshes TPromise_as_def
        refreshes_append refreshes_single split: list.splits)

lemma restoreExpansion_refreshes:
  "refreshes (calls (snd (restoreExpansion T vm v))) = refreshes (calls v)"
  unfolding restoreExpansion_def Let_def
  by (rule then_keeps [where g = "\<lambda>v. refreshes (calls v)"],
      rule sequence_keeps [where g = "\<lambda>v. refreshes (calls v)"])
     (auto simp: treePromise_refreshes expandFirstScope_refreshes TPromise_as_def
        split: option.splits)

lemma onFocusStackFrameScheduler_refreshes:
  "refreshes (calls (onFocusStackFrameScheduler T vm v)) = refreshes (calls v) + 1"
proof -
  let ?v2 = "treeCall ClearHighlight (clearHighlight T)
          (if 0 < length (getExpandedElements T (tree v))
           then v\<lparr>expandedElements := getExpandedElements T (tree v)\<rparr> else v)"
  have "refreshes (calls (onFocusStackFrameScheduler T vm v)) =
        refreshes (calls (snd (then' (treePromise (Refresh None) (refresh T None))
           (\<lambda>_. restoreExpansion T vm) ?v2)))"
    unfolding onFocusStackFrameScheduler_def Let_def
    by (rule done_after [where g = "\<lambda>v. refreshes (calls v)"])
       (simp_all add: TPromise_as_def report_def)
  also have "\<dots> = refreshes (calls (snd (treePromise (Refresh None) (refresh T None) ?v2)))"
    by (rule then_after [where g = "\<lambda>v. refreshes (calls v)"])
       (rule restoreExpansion_refreshes)
  finally show ?thesis
    by (simp add: treePromise_refreshes treeCall_def refreshes_append refreshes_single)
qed

lemma onWatchExpressionsUpdatedScheduler_refreshes:
  "refreshes (calls (onWatchExpressionsUpdatedScheduler T v)) = refreshes (calls v) + 1"
proof -
  have "refreshes (calls (onWatchExpressionsUpdatedScheduler T v)) =
        refreshes (calls (snd (treePromise (Refresh None) (refresh T None) v)))"
    unfolding onWatchExpressionsUpdatedScheduler_def
    by (subst done_after [where g = "\<lambda>v. refreshes (calls v)"])
       (auto simp: treePromise_refreshes TPromise_as_def report_def split: option.splits)
  then show ?thesis by (simp add: treePromise_refreshes)
qed

lemma onCallStackChangeScheduler_refreshes:
  "refreshes (calls (onCallStackChangeScheduler T vm model v)) \<le> refreshes (calls v) + 1"
proof -
  let ?v1 = "(case newTreeInput vm model of
                  InputThread t \<Rightarrow>
                    (case stoppedDetails t of
                       Some sd \<Rightarrow> showPauseMessage sd v
                     | None \<Rightarrow> v\<lparr>pauseMessage_shown := False\<rparr>)
                | _ \<Rightarrow> v\<lparr>pauseMessage_shown := False\<rparr>)"
  let ?p = "(if getInput T (tree ?v1) = Some (inputRef (newTreeInput vm model))
            then treePromise (Refresh None) (refresh T None)
            else treePromise (SetInput (inputRef (newTreeInput vm model)))
                   (setInput T (inputRef (newTreeInput vm model))))"
  have "refreshes (calls (onCallStackChangeScheduler T vm model v)) = refreshes (calls (snd (?p ?v1)))"
    unfolding onCallStackChangeScheduler_def Let_def
    by (subst done_after [where g = "\<lambda>v. refreshes (calls v)"])
       (simp_all add: updateTreeSelection_refreshes report_def)
  moreover have "calls ?v1 = calls v"
    by (simp add: showPauseMessage_def Let_def split: treeInput.splits option.splits)
  ultimately show ?thesis by (simp add: treePromise_refreshes)
qed

lemma VariablesView_burst_step:
  assumes "timers (scheduler v) = [due]" and "timeout (scheduler v) \<noteq> 0"
    and "getContentHeight T (tree v) \<noteq> 0" and "VariablesView_inBurst due ev"
  shows "VariablesView_step T ev v = v"
proof (cases ev)
  case (VDidFocusStackFrame now explicit)
  with assms show ?thesis
    by (simp add: VariablesView_onDidFocusStackFrame_def schedule_def isScheduled_def)
next
  case (VDidSelectExpression e)
  with assms show ?thesis by simp
next
  case (VTimer now vm)
  with assms show ?thesis by (simp add: tick_early)
qed

lemma VariablesView_burst:
  assumes "timers (scheduler v) = [due]" and "timeout (scheduler v) \<noteq> 0"
    and "getContentHeight T (tree v) \<noteq> 0" and "\<forall>ev \<in> set evs. VariablesView_inBurst due ev"
  shows "fold (VariablesView_step T) evs v = v"
  using assms(4)
  by (induction evs) (simp_all add: VariablesView_burst_step [OF assms(1-3)])

lemma CallStackView_burst_step:
  assumes "timers (scheduler v) = [due]" and "CallStackView_inBurst due ev"
  shows "CallStackView_step T ev v = v"
proof (cases ev)
  case (CDidChangeCallStack now)
  with assms show ?thesis
    by (simp add: CallStackView_onDidChangeCallStack_def isScheduled_def)
next
  case (CTimer now vm model)
  with assms show ?thesis by (simp add: tick_early)
qed (use assms in simp_all)

lemma CallStackView_burst:
  assumes "timers (scheduler v) = [due]" and "\<forall>ev \<in> set evs. CallStackView_inBurst due ev"
  shows "fold (CallStackView_step T) evs v = v"
  using assms(2)
  by (induction evs) (simp_all add: CallStackView_burst_step [OF assms(1)])

lemma WatchExpressionsView_burst_step:
  assumes "timers (scheduler v) = [due]" and "WatchExpressionsView_inBurst due ev"
  shows "scheduler (WatchExpressionsView_step T ev v) = scheduler v
       \<and> calls (WatchExpressionsView_step T ev v) = calls v
       \<and> tree (WatchExpressionsView_step T ev v) = tree v"
proof (cases ev)
  case (WDidChangeWatchExpressions now we)
  with assms show ?thesis
    by (simp add: WatchExpressionsView_onDidChangeWatchExpressions_def isScheduled_def Let_def
        split: option.splits)
next
  case (WTimer now)
  with assms show ?thesis by (simp add: tick_early)
qed (use assms in simp_all)

lemma WatchExpressionsView_burst:
  assumes "timers (scheduler v) = [due]" and "\<forall>ev \<in> set evs. WatchExpressionsView_inBurst due ev"
  shows "scheduler (fold (WatchExpressionsView_step T) evs v) = scheduler v
       \<and> calls (fold (WatchExpressionsView_step T) evs v) = calls v
       \<and> tree (fold (WatchExpressionsView_step T) evs v) = tree v"
  using assms
proof (induction evs arbitrary: v)
  case Nil
  then show ?case by simp
next
  case (Cons ev evs)
  from Cons.prems have s: "scheduler (WatchExpressionsView_step T ev v) = scheduler v
       \<and> calls (WatchExpressionsView_step T ev v) = calls v
       \<and> tree (WatchExpressionsView_step T ev v) = tree v"
    by (intro WatchExpressionsView_burst_step) auto
  with Cons.prems have "timers (scheduler (WatchExpressionsView_step T ev v)) = [due]" by simp
  from Cons.IH [OF this] Cons.prems(2) s show ?case by simp
qed

lemma schedule_idle:
  "timers s = [] \<Longrightarrow> schedule now None s = s\<lparr>timers := [now + timeout s]\<rparr>"
  by (simp add: schedule_def isScheduled_def setTimeout_def cancel_def)

lemma VariablesView_burst_once:
  assumes "timers (scheduler v) = []" and "timeout (scheduler v) = 400"
    and "getContentHeight T (tree v) \<noteq> 0"
    and "\<forall>ev \<in> set evs. VariablesView_inBurst (t0 + 400) ev" and "t0 + 400 \<le> t1"
  shows "fold (VariablesView_step T) (VDidFocusStackFrame t0 False # evs) v
           = v\<lparr>scheduler := (scheduler v)\<lparr>timers := [t0 + 400]\<rparr>\<rparr>"
    and "refreshes (calls (fold (VariablesView_step T)
           (VDidFocusStackFrame t0 False # evs @ [VTimer t1 vm]) v)) = refreshes (calls v) + 1"
    and "timers (scheduler (fold (VariablesView_step T)
           (VDidFocusStackFrame t0 False # evs @ [VTimer t1 vm]) v)) = []"
proof -
  let ?v1 = "v\<lparr>scheduler := (scheduler v)\<lparr>timers := [t0 + 400]\<rparr>\<rparr>"
  have first: "VariablesView_step T (VDidFocusStackFrame t0 False) v = ?v1"
    using assms(1-3) by (simp add: VariablesView_onDidFocusStackFrame_def schedule_idle)
  have burst: "fold (VariablesView_step T) evs ?v1 = ?v1"
    by (rule VariablesView_burst [where due = "t0 + 400"]) (use assms in simp_all)
  show a: "fold (VariablesView_step T) (VDidFocusStackFrame t0 False # evs) v = ?v1"
    using first burst by simp
  have fired: "fold (VariablesView_step T) (VDidFocusStackFrame t0 False # evs @ [VTimer t1 vm]) v
      = onFocusStackFrameScheduler T vm (?v1\<lparr>scheduler := (scheduler ?v1)\<lparr>timers := []\<rparr>\<rparr>)"
    using first burst assms(5) by (simp add: tick_due [where d = "t0 + 400"])
  show "refreshes (calls (fold (VariablesView_step T)
           (VDidFocusStackFrame t0 False # evs @ [VTimer t1 vm]) v)) = refreshes (calls v) + 1"
    unfolding fired by (simp add: onFocusStackFrameScheduler_refreshes)
  show "timers (scheduler (fold (VariablesView_step T)
           (VDidFocusStackFrame t0 False # evs @ [VTimer t1 vm]) v)) = []"
    unfolding fired by (simp add: onFocusStackFrameScheduler_scheduler)
qed

lemma CallStackView_burst_once:
  assumes "timers (scheduler v) = []" and "timeout (scheduler v) = 50"
    and "\<forall>ev \<in> set evs. CallStackView_inBurst (t0 + 50) ev" and "t0 + 50 \<le> t1"
  shows "fold (CallStackView_step T) (CDidChangeCallStack t0 # evs) v
           = v\<lparr>scheduler := (scheduler v)\<lparr>timers := [t0 + 50]\<rparr>\<rparr>"
    and "refreshes (calls (fold (CallStackView_step T)
           (CDidChangeCallStack t0 # evs @ [CTimer t1 vm model]) v)) \<le> refreshes (calls v) + 1"
    and "timers (scheduler (fold (CallStackView_step T)
           (CDidChangeCallStack t0 # evs @ [CTimer t1 vm model]) v)) = []"
proof -
  let ?v1 = "v\<lparr>scheduler := (scheduler v)\<lparr>timers := [t0 + 50]\<rparr>\<rparr>"
  have first: "CallStackView_step T (CDidChangeCallStack t0) v = ?v1"
    using assms(1,2) by (simp add: CallStackView_onDidChangeCallStack_def schedule_idle isScheduled_def)
  have burst: "fold (CallStackView_step T) evs ?v1 = ?v1"
    by (rule CallStackView_burst [where due = "t0 + 50"]) (use assms in simp_all)
  show a: "fold (CallStackView_step T) (CDidChangeCallStack t0 # evs) v = ?v1"
    using first burst by simp
  have fired: "fold (CallStackView_step T) (CDidChangeCallStack t0 # evs @ [CTimer t1 vm model]) v
      = onCallStackChangeScheduler T vm model (?v1\<lparr>scheduler := (scheduler ?v1)\<lparr>timers := []\<rparr>\<rparr>)"
    using first burst assms(4) by (simp add: tick_due [where d = "t0 + 50"])
  show "refreshes (calls (fold (CallStackView_step T)
           (CDidChangeCallStack t0 # evs @ [CTimer t1 vm model]) v)) \<le> refreshes (calls v) + 1"
    unfolding fired
    using onCallStackChangeScheduler_refreshes [of T vm model "?v1\<lparr>scheduler := (scheduler ?v1)\<lparr>timers := []\<rparr>\<rparr>"]
    by simp
  show "timers (scheduler (fold (CallStackView_step T)
           (CDidChangeCallStack t0 # evs @ [CTimer t1 vm model]) v)) = []"
    unfolding fired by (simp add: onCallStackChangeScheduler_scheduler)
qed

lemma WatchExpressionsView_burst_once:
  assumes "timers (scheduler v) = []" and "timeout (scheduler v) = 50"
    and "\<forall>ev \<in> set evs. WatchExpressionsView_inBurst (t0 + 50) ev" and "t0 + 50 \<le> t1"
  shows "calls (fold (WatchExpressionsView_step T) (WDidChangeWatchExpressions t0 we # evs) v) = calls v"
    and "timers (scheduler (fold (WatchExpressionsView_step T)
           (WDidChangeWatchExpressions t0 we # evs) v)) = [t0 + 50]"
    and "refreshes (calls (fold (WatchExpressionsView_step T)
           (WDidChangeWatchExpressions t0 we # evs @ [WTimer t1]) v)) = refreshes (calls v) + 1"
    and "timers (scheduler (fold (WatchExpressionsView_step T)
           (WDidChangeWatchExpressions t0 we # evs @ [WTimer t1]) v)) = []"
proof -
  let ?v1 = "WatchExpressionsView_step T (WDidChangeWatchExpressions t0 we) v"
  let ?v2 = "fold (WatchExpressionsView_step T) evs ?v1"
  have first: "scheduler ?v1 = (scheduler v)\<lparr>timers := [t0 + 50]\<rparr>" "calls ?v1 = calls v"
    using assms(1,2)
    by (simp_all add: WatchExpressionsView_onDidChangeWatchExpressions_def schedule_idle
        isScheduled_def Let_def split: option.splits)
  then have t1: "timers (scheduler ?v1) = [t0 + 50]" by simp
  have burst: "scheduler ?v2 = scheduler ?v1" "calls ?v2 = calls ?v1"
    using WatchExpressionsView_burst [OF t1 assms(3), of T] by simp_all
  show "calls (fold (WatchExpressionsView_step T) (WDidChangeWatchExpressions t0 we # evs) v) = calls v"
    using first burst by simp
  show "timers (scheduler (fold (WatchExpressionsView_step T)
           (WDidChangeWatchExpressions t0 we # evs) v)) = [t0 + 50]"
    using first burst by simp
  have t2: "timers (scheduler ?v2) = [t0 + 50]" using burst t1 by simp
  have fired: "fold (WatchExpressionsView_step T) (WDidChangeWatchExpressions t0 we # evs @ [WTimer t1]) v
      = onWatchExpressionsUpdatedScheduler T (?v2\<lparr>scheduler := (scheduler ?v2)\<lparr>timers := []\<rparr>\<rparr>)"
  proof -
    have "fold (WatchExpressionsView_step T) (WDidChangeWatchExpressions t0 we # evs @ [WTimer t1]) v
        = tick t1 (onWatchExpressionsUpdatedScheduler T) ?v2"
      by simp
    also have "\<dots> = onWatchExpressionsUpdatedScheduler T
        (?v2\<lparr>scheduler := (scheduler ?v2)\<lparr>timers := []\<rparr>\<rparr>)"
      by (rule tick_due [OF t2 assms(4)])
    finally show ?thesis .
  qed
  show "refreshes (calls (fold (WatchExpressionsView_step T)
           (WDidChangeWatchExpressions t0 we # evs @ [WTimer t1]) v)) = refreshes (calls v) + 1"
    unfolding fired using first burst by (simp add: onWatchExpressionsUpdatedScheduler_refreshes)
  show "timers (scheduler (fold (WatchExpressionsView_step T)
           (WDidChangeWatchExpressions t0 we # evs @ [WTimer t1]) v)) = []"
    unfolding fired by (simp add: onWatchExpressionsUpdatedScheduler_scheduler)
qed


text \<open>The calls of the chains.\<close>

lemma done_TPromise_as:
  "done' p TPromise_as report v =
     (case p v of (Inl e, v') \<Rightarrow> report e v' | (Inr a, v') \<Rightarrow> v')"
  by (auto simp: done'_def TPromise_as_def split: prod.splits sum.splits)

lemma updateTreeSelection_rest:
  "\<exists>rest. calls (snd (updateTreeSelection T vm s)) = calls s @ rest
      \<and> (\<forall>c \<in> set rest. \<not> isRefresh c \<and> \<not> isSetInput c)"
  by (auto simp: updateTreeSelection_def Let_def TPromise_as_def treeCall_def treePromise_def
      then'_def split: option.splits prod.splits sum.splits)

lemma sequence_expandEach_result:
  "sequence (map (\<lambda>e. treePromise (Expand e) (expand T e)) es) s =
     (case expandEach T es (tree s) of
        (None, t') \<Rightarrow> (Inr (), s\<lparr>tree := t', calls := calls s @ map Expand es\<rparr>)
      | (Some err, t') \<Rightarrow>
          (Inl err, s\<lparr>tree := t',
                      calls := calls s @ map Expand (take (attempted T es (tree s)) es),
                      rejected := rejected s @ [err]\<rparr>))"
proof (induction es arbitrary: s)
  case Nil
  then show ?case by (simp add: TPromise_as_def)
next
  case (Cons e es)
  obtain r t1 where e: "expand T e (tree s) = (r, t1)" by (cases "expand T e (tree s)")
  show ?case
  proof (cases r)
    case (Some err)
    with e show ?thesis by (simp add: then'_def treePromise_def)
  next
    case None
    let ?s1 = "s\<lparr>tree := t1, calls := calls s @ [Expand e]\<rparr>"
    have p: "treePromise (Expand e) (expand T e) s = (Inr (), ?s1)"
      using e None by (simp add: treePromise_def)
    have "sequence (map (\<lambda>e. treePromise (Expand e) (expand T e)) (e # es)) s
        = sequence (map (\<lambda>e. treePromise (Expand e) (expand T e)) es) ?s1"
      by (simp add: then'_def p)
    also note Cons.IH [of ?s1]
    finally show ?thesis using e None by (simp split: prod.splits option.splits)
  qed
qed

lemma expandFirstScope_result:
  "getExpandedElements T (tree s) = [] \<Longrightarrow>
   expandFirstScope T sf s =
     (case fst (expandDefault T (Some sf) (tree s)) of None \<Rightarrow> Inr () | Some e \<Rightarrow> Inl e,
      s\<lparr>tree := snd (expandDefault T (Some sf) (tree s)),
        calls := calls s @ defaultExpansion (Some sf) [],
        rejected := rejected s @ errorsOf (fst (expandDefault T (Some sf) (tree s)))\<rparr>)"
  by (auto simp: expandFirstScope_def expandDefault_def defaultExpansion_def errorsOf_def
      then'_def stackFrame_getScopes_def treePromise_def TPromise_as_def
      split: sum.splits list.splits prod.splits option.splits)

lemma restoreExpansion_result:
  "restoreExpansion T vm s =
     (case expandEach T (expandedElements s) (tree s) of
        (Some err, t2) \<Rightarrow>
          (Inl err, s\<lparr>tree := t2,
                      calls := calls s @ map Expand
                        (take (attempted T (expandedElements s) (tree s)) (expandedElements s)),
                      rejected := rejected s @ [err]\<rparr>)
      | (None, t2) \<Rightarrow>
          (case fst (expandDefault T (focusedStackFrame vm) t2) of
             None \<Rightarrow> Inr () | Some e \<Rightarrow> Inl e,
           s\<lparr>tree := snd (expandDefault T (focusedStackFrame vm) t2),
             calls := calls s @ map Expand (expandedElements s)
                @ defaultExpansion (focusedStackFrame vm) (getExpandedElements T t2),
             rejected := rejected s @ errorsOf (fst (expandDefault T (focusedStackFrame vm) t2))\<rparr>))"
proof (cases "expandEach T (expandedElements s) (tree s)")
  case (Pair r t2)
  show ?thesis
  proof (cases r)
    case (Some err)
    with Pair show ?thesis
      by (simp add: restoreExpansion_def Let_def then'_def sequence_expandEach_result)
  next
    case None
    let ?s2 = "s\<lparr>tree := t2, calls := calls s @ map Expand (expandedElements s)\<rparr>"
    have seq: "sequence (map (\<lambda>e. treePromise (Expand e) (expand T e)) (expandedElements s)) s
        = (Inr (), ?s2)"
      using Pair None by (simp add: sequence_expandEach_result)
    show ?thesis
    proof (cases "focusedStackFrame vm")
      case N: None
      then show ?thesis using Pair None
        by (simp add: restoreExpansion_def Let_def then'_def seq TPromise_as_def
            expandDefault_def defaultExpansion_def errorsOf_def)
    next
      case (Some sf)
      show ?thesis
      proof (cases "getExpandedElements T t2 = []")
        case True
        have "restoreExpansion T vm s = expandFirstScope T sf ?s2"
          using Some True by (simp add: restoreExpansion_def Let_def then'_def seq)
        also have "\<dots> = (case fst (expandDefault T (Some sf) t2) of None \<Rightarrow> Inr () | Some e \<Rightarrow> Inl e,
            ?s2\<lparr>tree := snd (expandDefault T (Some sf) t2),
              calls := calls ?s2 @ defaultExpansion (Some sf) [],
              rejected := rejected ?s2 @ errorsOf (fst (expandDefault T (Some sf) t2))\<rparr>)"
          using expandFirstScope_result [of T ?s2 sf] True by simp
        finally show ?thesis using Pair None Some True by simp
      next
        case False
        then show ?thesis using Pair None Some
          by (simp add: restoreExpansion_def Let_def then'_def seq TPromise_as_def
              expandDefault_def defaultExpansion_def errorsOf_def)
      qed
    qed
  qed
qed


lemma onFocusStackFrameScheduler_result:
  assumes "preserved = (if getExpandedElements T (tree v) \<noteq> [] then getExpandedElements T (tree v)
                        else expandedElements v)"
    and "refresh T None (clearHighlight T (tree v)) = (r, t1)"
  shows "onFocusStackFrameScheduler T vm v =
     (case r of
        Some e \<Rightarrow>
          v\<lparr>expandedElements := preserved, tree := t1,
            calls := calls v @ [ClearHighlight, Refresh None],
            rejected := rejected v @ [e], onUnexpectedError := onUnexpectedError v @ [e]\<rparr>
      | None \<Rightarrow>
         (case expandEach T preserved t1 of
            (Some e, t2) \<Rightarrow>
              v\<lparr>expandedElements := preserved, tree := t2,
                calls := calls v @ [ClearHighlight, Refresh None]
                   @ map Expand (take (attempted T preserved t1) preserved),
                rejected := rejected v @ [e], onUnexpectedError := onUnexpectedError v @ [e]\<rparr>
          | (None, t2) \<Rightarrow>
              v\<lparr>expandedElements := preserved,
                tree := snd (expandDefault T (focusedStackFrame vm) t2),
                calls := calls v @ [ClearHighlight, Refresh None] @ map Expand preserved
                   @ defaultExpansion (focusedStackFrame vm) (getExpandedElements T t2),
                rejected := rejected v @ errorsOf (fst (expandDefault T (focusedStackFrame vm) t2)),
                onUnexpectedError := onUnexpectedError v
                   @ errorsOf (fst (expandDefault T (focusedStackFrame vm) t2))\<rparr>))"
proof -
  let ?v1 = "v\<lparr>expandedElements := preserved\<rparr>"
  let ?v2 = "?v1\<lparr>tree := clearHighlight T (tree v), calls := calls v @ [ClearHighlight]\<rparr>"
  have run: "onFocusStackFrameScheduler T vm v
      = done' (then' (treePromise (Refresh None) (refresh T None)) (\<lambda>_. restoreExpansion T vm))
          TPromise_as report ?v2"
    using assms(1) by (auto simp: onFocusStackFrameScheduler_def Let_def treeCall_def)
  show ?thesis
  proof (cases r)
    case (Some e)
    then show ?thesis unfolding run using assms(2)
      by (simp add: done'_def then'_def treePromise_def report_def)
  next
    case None
    let ?v3 = "?v2\<lparr>tree := t1, calls := calls ?v2 @ [Refresh None]\<rparr>"
    have chain: "then' (treePromise (Refresh None) (refresh T None)) (\<lambda>_. restoreExpansion T vm) ?v2
        = restoreExpansion T vm ?v3"
      using assms(2) None by (simp add: then'_def treePromise_def)
    obtain r2 t2 where e: "expandEach T preserved t1 = (r2, t2)"
      by (cases "expandEach T preserved t1")
    show ?thesis
    proof (cases r2)
      case (Some err)
      with None e show ?thesis unfolding run
        by (simp add: done'_def chain restoreExpansion_result report_def)
    next
      case N2: None
      with None e show ?thesis unfolding run
        by (cases "fst (expandDefault T (focusedStackFrame vm) t2)")
           (simp_all add: done'_def chain restoreExpansion_result report_def TPromise_as_def
              errorsOf_def)
    qed
  qed
qed

lemma updateTreeSelection_tree_only:
  assumes "tree s = tree s'"
  shows "tree (snd (updateTreeSelection T vm s)) = tree (snd (updateTreeSelection T vm s'))
       \<and> fst (updateTreeSelection T vm s) = fst (updateTreeSelection T vm s')"
  using assms
  by (auto simp: updateTreeSelection_def Let_def TPromise_as_def treeCall_def treePromise_def
      then'_def split: option.splits prod.splits sum.splits)

lemma updateTreeSelection_sink:
  "onUnexpectedError (snd (updateTreeSelection T vm s)) = onUnexpectedError s"
  by (auto simp: updateTreeSelection_def Let_def TPromise_as_def treeCall_def treePromise_def
      then'_def split: option.splits prod.splits sum.splits)









subsection \<open>The schedulers\<close>



text \<open>
  C4. At most one refresh is pending per view at any time: from a scheduler with no
  timer, whatever events the view receives, its scheduler holds at most one timer. The
  breakpoints view owns no scheduler and so never has a pending refresh.
\<close>

theorem at_most_one_pending_refresh:
  assumes "timers (scheduler vv) = []" and "timers (scheduler wv) = []"
    and "timers (scheduler cv) = []"
  shows "length (timers (scheduler (fold (VariablesView_step T) ves vv))) \<le> 1
       \<and> length (timers (scheduler (fold (WatchExpressionsView_step T) wes wv))) \<le> 1
       \<and> length (timers (scheduler (fold (CallStackView_step T) ces cv))) \<le> 1"
proof -
  have "length (timers (scheduler (fold (VariablesView_step T) ves vv))) \<le> 1"
    by (rule fold_invariant [where P = "\<lambda>v. length (timers (scheduler v)) \<le> 1"])
       (simp_all add: assms VariablesView_step_length)
  moreover have "length (timers (scheduler (fold (WatchExpressionsView_step T) wes wv))) \<le> 1"
    by (rule fold_invariant [where P = "\<lambda>v. length (timers (scheduler v)) \<le> 1"])
       (simp_all add: assms WatchExpressionsView_step_length)
  moreover have "length (timers (scheduler (fold (CallStackView_step T) ces cv))) \<le> 1"
    by (rule fold_invariant [where P = "\<lambda>v. length (timers (scheduler v)) \<le> 1"])
       (simp_all add: assms CallStackView_step_length)
  ultimately show ?thesis by simp
qed

theorem at_most_one_pending_refresh_witness:
  "length (timers (scheduler (fold (VariablesView_step simpleTree)
      [VDidFocusStackFrame 10 False, VDidFocusStackFrame 20 True, VDidFocusStackFrame 30 False]
      (VariablesView_new Map.empty visibleTree)))) \<le> 1
   \<and> length (timers (scheduler (fold (WatchExpressionsView_step simpleTree)
      [WDidChangeWatchExpressions 10 None, WDidChangeWatchExpressions 20 None, WTimer 60,
       WDidChangeWatchExpressions 70 None]
      (WatchExpressionsView_new Map.empty visibleTree)))) \<le> 1
   \<and> length (timers (scheduler (fold (CallStackView_step simpleTree)
      [CRenderBody 5 Stopped, CDidChangeCallStack 10, CDidChangeCallStack 20 :: string CallStackEvent]
      (CallStackView_new Map.empty visibleTree)))) \<le> 1"
proof -
  have "timers (scheduler (VariablesView_new Map.empty visibleTree)) = []"
    "timers (scheduler (WatchExpressionsView_new Map.empty visibleTree)) = []"
    "timers (scheduler (CallStackView_new Map.empty visibleTree)) = []"
    by (simp_all add: VariablesView_new_def WatchExpressionsView_new_def CallStackView_new_def
        VariablesView_scheduler_def WatchExpressionsView_scheduler_def CallStackView_scheduler_def)
  then show ?thesis by (rule at_most_one_pending_refresh)
qed

text \<open>
  C7, as the claim states it, fails for the breakpoints view: it has no scheduler, and
  its listener refreshes the tree at once, so two notifications give two refreshes.
\<close>

theorem breakpoints_burst_counterexample:
  "refreshes (calls
     (onBreakpointsChange simpleTree
        \<lparr> getProcesses = [], getBreakpoints = [Breakpoint ''/a/x.ts'' 7 1, Breakpoint ''/a/x.ts'' 9 1],
          getExceptionBreakpoints = [], getFunctionBreakpoints = [] \<rparr>
        (onBreakpointsChange simpleTree
           \<lparr> getProcesses = [], getBreakpoints = [Breakpoint ''/a/x.ts'' 7 1],
             getExceptionBreakpoints = [], getFunctionBreakpoints = [] \<rparr>
           (BreakpointsView_new Map.empty
              \<lparr> getProcesses = [], getBreakpoints = ([] :: string IBreakpoint list),
                getExceptionBreakpoints = [], getFunctionBreakpoints = [] \<rparr>
              (Some visibleTree))))) = 2"
  by (simp add: onBreakpointsChange_def BreakpointsView_new_def simpleTree_def visibleTree_def
      emptyTree_def Let_def refreshes_def)

text \<open>
  C7, amended. The variables, watch expressions and call stack views coalesce change
  notifications through their scheduler: from an idle scheduler, a first notification
  at time \<open>t0\<close> and any further notifications and clock ticks before the timer is due
  (for the variables view: notifications that do not ask for an immediate run, on a tree
  with a content height) cause no refresh, and the timer, once due, causes exactly one
  (for the call stack view at most one: its action refreshes the tree or sets a new
  input). The breakpoints view has no scheduler: once its tree exists, every
  notification refreshes the tree.
\<close>

theorem burst_refreshes_once:
  assumes "timers (scheduler vv) = []" and "timeout (scheduler vv) = 400"
    and "getContentHeight T (tree vv) \<noteq> 0"
    and "\<forall>ev \<in> set ves. VariablesView_inBurst (t0 + 400) ev" and "t0 + 400 \<le> tv"
    and "timers (scheduler wv) = []" and "timeout (scheduler wv) = 50"
    and "\<forall>ev \<in> set wes. WatchExpressionsView_inBurst (t0 + 50) ev" and "t0 + 50 \<le> tw"
    and "timers (scheduler cv) = []" and "timeout (scheduler cv) = 50"
    and "\<forall>ev \<in> set ces. CallStackView_inBurst (t0 + 50) ev" and "t0 + 50 \<le> tc"
    and "tree bv \<noteq> None"
  shows "refreshes (calls (fold (VariablesView_step T) (VDidFocusStackFrame t0 False # ves) vv))
           = refreshes (calls vv)
       \<and> refreshes (calls (fold (VariablesView_step T)
             (VDidFocusStackFrame t0 False # ves @ [VTimer tv vm]) vv)) = refreshes (calls vv) + 1
       \<and> refreshes (calls (fold (WatchExpressionsView_step T)
             (WDidChangeWatchExpressions t0 we # wes) wv)) = refreshes (calls wv)
       \<and> refreshes (calls (fold (WatchExpressionsView_step T)
             (WDidChangeWatchExpressions t0 we # wes @ [WTimer tw]) wv)) = refreshes (calls wv) + 1
       \<and> refreshes (calls (fold (CallStackView_step T) (CDidChangeCallStack t0 # ces) cv))
           = refreshes (calls cv)
       \<and> refreshes (calls (fold (CallStackView_step T)
             (CDidChangeCallStack t0 # ces @ [CTimer tc vm model]) cv)) \<le> refreshes (calls cv) + 1
       \<and> refreshes (calls (onBreakpointsChange T model bv)) = refreshes (calls bv) + 1"
proof -
  note v = VariablesView_burst_once [OF assms(1-5)]
  note w = WatchExpressionsView_burst_once [OF assms(6-9)]
  note c = CallStackView_burst_once [OF assms(10-13)]
  have b: "refreshes (calls (onBreakpointsChange T model bv)) = refreshes (calls bv) + 1"
    using assms(14)
    by (auto simp: onBreakpointsChange_def Let_def report_def refreshes_append refreshes_single
        split: option.splits prod.splits)
  show ?thesis
    by (simp only: v(1) w(1) c(1) v(2) w(3) c(2) b) simp
qed

theorem burst_refreshes_once_witness:
  "refreshes (calls (fold (VariablesView_step simpleTree)
      (VDidFocusStackFrame 10 False # [VDidFocusStackFrame 20 False, VTimer 300 noFocus]
         @ [VTimer 410 noFocus])
      (VariablesView_new Map.empty visibleTree))) = 1
   \<and> refreshes (calls (fold (WatchExpressionsView_step simpleTree)
      (WDidChangeWatchExpressions 10 None # [WDidChangeWatchExpressions 20 None, WTimer 30]
         @ [WTimer 60])
      (WatchExpressionsView_new Map.empty visibleTree))) = 1
   \<and> refreshes (calls (fold (CallStackView_step simpleTree)
      (CDidChangeCallStack 10 # [CDidChangeCallStack 20, CDidChangeCallStack 59])
      (CallStackView_new Map.empty visibleTree))) = 0
   \<and> refreshes (calls (onBreakpointsChange simpleTree sampleModel
      (BreakpointsView_new Map.empty sampleModel (Some visibleTree)))) = 1"
proof -
  have v: "timers (scheduler (VariablesView_new Map.empty visibleTree)) = []"
    "timeout (scheduler (VariablesView_new Map.empty visibleTree)) = 400"
    "getContentHeight simpleTree (tree (VariablesView_new Map.empty visibleTree)) \<noteq> 0"
    "\<forall>ev \<in> set [VDidFocusStackFrame 20 False, VTimer 300 noFocus].
        VariablesView_inBurst (10 + 400) ev"
    "(10::nat) + 400 \<le> 410"
    by (simp_all add: VariablesView_new_def VariablesView_scheduler_def simpleTree_def
        visibleTree_def emptyTree_def)
  have w: "timers (scheduler (WatchExpressionsView_new Map.empty visibleTree)) = []"
    "timeout (scheduler (WatchExpressionsView_new Map.empty visibleTree)) = 50"
    "\<forall>ev \<in> set [WDidChangeWatchExpressions 20 None, WTimer 30].
        WatchExpressionsView_inBurst (10 + 50) ev"
    "(10::nat) + 50 \<le> 60"
    by (simp_all add: WatchExpressionsView_new_def WatchExpressionsView_scheduler_def)
  have c: "timers (scheduler (CallStackView_new Map.empty visibleTree)) = []"
    "timeout (scheduler (CallStackView_new Map.empty visibleTree)) = 50"
    "\<forall>ev \<in> set [CDidChangeCallStack 20, CDidChangeCallStack 59 :: string CallStackEvent].
        CallStackView_inBurst (10 + 50) ev"
    "(10::nat) + 50 \<le> 60"
    by (simp_all add: CallStackView_new_def CallStackView_scheduler_def)
  have b: "tree (BreakpointsView_new Map.empty sampleModel (Some visibleTree)) \<noteq> None"
    by (simp add: BreakpointsView_new_def)
  have z: "calls (VariablesView_new Map.empty visibleTree) = []"
    "calls (WatchExpressionsView_new Map.empty visibleTree) = []"
    "calls (CallStackView_new Map.empty visibleTree) = []"
    "calls (BreakpointsView_new Map.empty sampleModel (Some visibleTree)) = []"
    by (simp_all add: VariablesView_new_def WatchExpressionsView_new_def CallStackView_new_def
        BreakpointsView_new_def)
  have r: "refreshes [] = 0" by (simp add: refreshes_def)
  from burst_refreshes_once [OF v w c b, where vm = noFocus and we = None and model = sampleModel]
  show ?thesis unfolding z r by simp
qed

subsection \<open>The actions of the schedulers\<close>

text \<open>
  C3, as the claim states it, fails: the re-expansions form one promise chain, which
  ends at the first rejection. When the tree rejects the expansion of a preserved
  element, the elements after it are not re-expanded, and although a frame is focused
  and nothing is expanded, no scope is fetched or expanded; the rejection goes to
  \<^verbatim>\<open>errors.onUnexpectedError\<close>.
\<close>

theorem stale_expansion_counterexample:
  "calls (onFocusStackFrameScheduler staleTree (noFocus\<lparr>focusedStackFrame := Some localFrame\<rparr>)
      ((VariablesView_new Map.empty visibleTree)
         \<lparr>expandedElements := [VariableRef ''gone'', VariableRef ''b'']\<rparr>))
     = [ClearHighlight, Refresh None, Expand (VariableRef ''gone'')]
   \<and> getExpandedElements staleTree
       (tree (onFocusStackFrameScheduler staleTree (noFocus\<lparr>focusedStackFrame := Some localFrame\<rparr>)
         ((VariablesView_new Map.empty visibleTree)
            \<lparr>expandedElements := [VariableRef ''gone'', VariableRef ''b'']\<rparr>))) = []
   \<and> onUnexpectedError
       (onFocusStackFrameScheduler staleTree (noFocus\<lparr>focusedStackFrame := Some localFrame\<rparr>)
         ((VariablesView_new Map.empty visibleTree)
            \<lparr>expandedElements := [VariableRef ''gone'', VariableRef ''b'']\<rparr>))
     = [Error ''element not found'']"
  by (simp add: onFocusStackFrameScheduler_def restoreExpansion_def Let_def done'_def then'_def
      treePromise_def treeCall_def report_def TPromise_as_def staleTree_def simpleTree_def
      VariablesView_new_def visibleTree_def emptyTree_def noFocus_def)

text \<open>
  C3, amended. When the action of the variables view fires, it clears the highlight and
  refreshes the tree; the preserved list of expanded elements is the tree's own list
  when that is not empty, and the list kept from before otherwise. If the refresh is
  resolved, the elements of the preserved list are re-expanded in order, up to the first
  rejection if there is one. If all of them are resolved, then, only if a stack frame is
  focused and the tree has no expanded element, the scopes of that frame are fetched
  and the first one is expanded on the tree, provided there is one and it is not
  expensive; in every other case no default expansion is made. A rejection of the
  refresh, of a re-expansion, of the scopes request or of the default expansion ends
  the chain, leaves the tree as that call left it, and is passed to
  \<^verbatim>\<open>errors.onUnexpectedError\<close>.
\<close>

theorem variables_action_expansion:
  assumes "preserved = (if getExpandedElements T (tree v) \<noteq> [] then getExpandedElements T (tree v)
                        else expandedElements v)"
    and "after = onFocusStackFrameScheduler T vm v"
  shows "expandedElements after = preserved
       \<and> (\<forall>t1 t2. refresh T None (clearHighlight T (tree v)) = (None, t1)
              \<and> expandEach T preserved t1 = (None, t2) \<longrightarrow>
            calls after = calls v @ [ClearHighlight, Refresh None] @ map Expand preserved
               @ defaultExpansion (focusedStackFrame vm) (getExpandedElements T t2)
            \<and> tree after = snd (expandDefault T (focusedStackFrame vm) t2)
            \<and> onUnexpectedError after = onUnexpectedError v
                 @ errorsOf (fst (expandDefault T (focusedStackFrame vm) t2)))
       \<and> (\<forall>e t1. refresh T None (clearHighlight T (tree v)) = (Some e, t1) \<longrightarrow>
            calls after = calls v @ [ClearHighlight, Refresh None]
            \<and> tree after = t1
            \<and> onUnexpectedError after = onUnexpectedError v @ [e])
       \<and> (\<forall>e t1 t2. refresh T None (clearHighlight T (tree v)) = (None, t1)
              \<and> expandEach T preserved t1 = (Some e, t2) \<longrightarrow>
            calls after = calls v @ [ClearHighlight, Refresh None]
               @ map Expand (take (attempted T preserved t1) preserved)
            \<and> tree after = t2
            \<and> onUnexpectedError after = onUnexpectedError v @ [e])"
proof -
  obtain r t1 where r: "refresh T None (clearHighlight T (tree v)) = (r, t1)"
    by (cases "refresh T None (clearHighlight T (tree v))")
  note res = onFocusStackFrameScheduler_result [OF assms(1) r, of vm, folded assms(2)]
  have x: "expandedElements after = preserved"
    unfolding res by (simp split: option.splits prod.splits)
  show ?thesis
  proof (cases r)
    case (Some e)
    with r res x show ?thesis by simp
  next
    case None
    obtain r2 t2 where e: "expandEach T preserved t1 = (r2, t2)"
      by (cases "expandEach T preserved t1")
    with None r res x show ?thesis by (cases r2) simp_all
  qed
qed

theorem variables_action_expansion_witness:
  "calls (onFocusStackFrameScheduler simpleTree (noFocus\<lparr>focusedStackFrame := Some localFrame\<rparr>)
      (VariablesView_new Map.empty visibleTree))
     = [ClearHighlight, Refresh None, GetScopes (StackFrameRef 1),
        Expand (ScopeRef \<lparr> scopeName = ''Local'', expensive = False \<rparr>)]
   \<and> expandedNodes (tree (onFocusStackFrameScheduler simpleTree
        (noFocus\<lparr>focusedStackFrame := Some localFrame\<rparr>)
        (VariablesView_new Map.empty visibleTree)))
     = [ScopeRef \<lparr> scopeName = ''Local'', expensive = False \<rparr>]
   \<and> calls (onFocusStackFrameScheduler simpleTree (noFocus\<lparr>focusedStackFrame := Some localFrame\<rparr>)
      ((VariablesView_new Map.empty visibleTree)
         \<lparr>expandedElements := [VariableRef ''a'', VariableRef ''b'']\<rparr>))
     = [ClearHighlight, Refresh None, Expand (VariableRef ''a''), Expand (VariableRef ''b'')]
   \<and> expandedNodes (tree (onFocusStackFrameScheduler simpleTree
        (noFocus\<lparr>focusedStackFrame := Some localFrame\<rparr>)
        ((VariablesView_new Map.empty visibleTree)
           \<lparr>expandedElements := [VariableRef ''a'', VariableRef ''b'']\<rparr>)))
     = [VariableRef ''a'', VariableRef ''b'']
   \<and> onUnexpectedError (onFocusStackFrameScheduler staleTree
        (noFocus\<lparr>focusedStackFrame := Some localFrame\<rparr>)
        ((VariablesView_new Map.empty visibleTree)
           \<lparr>expandedElements := [VariableRef ''a'', VariableRef ''gone'', VariableRef ''b'']\<rparr>))
     = [Error ''element not found'']
   \<and> expandedNodes (tree (onFocusStackFrameScheduler staleTree
        (noFocus\<lparr>focusedStackFrame := Some localFrame\<rparr>)
        ((VariablesView_new Map.empty visibleTree)
           \<lparr>expandedElements := [VariableRef ''a'', VariableRef ''gone'', VariableRef ''b'']\<rparr>)))
     = [VariableRef ''a'']"
  using variables_action_expansion [OF refl refl, where T = simpleTree
      and v = "VariablesView_new Map.empty visibleTree"
      and vm = "noFocus\<lparr>focusedStackFrame := Some localFrame\<rparr>"]
    variables_action_expansion [OF refl refl, where T = simpleTree
      and v = "(VariablesView_new Map.empty visibleTree)
         \<lparr>expandedElements := [VariableRef ''a'', VariableRef ''b'']\<rparr>"
      and vm = "noFocus\<lparr>focusedStackFrame := Some localFrame\<rparr>"]
    variables_action_expansion [OF refl refl, where T = staleTree
      and v = "(VariablesView_new Map.empty visibleTree)
         \<lparr>expandedElements := [VariableRef ''a'', VariableRef ''gone'', VariableRef ''b'']\<rparr>"
      and vm = "noFocus\<lparr>focusedStackFrame := Some localFrame\<rparr>"]
  by (simp add: staleTree_def simpleTree_def VariablesView_new_def visibleTree_def emptyTree_def
      noFocus_def localFrame_def stackFrameRef_def expandDefault_def defaultExpansion_def
      errorsOf_def)

text \<open>
  C10. When the action of the call stack view fires, the new input of the tree is the
  sole thread of the first process when the view model is not a multi-process view, a
  process exists and the first one has exactly one thread; the first process when it has
  any other number of threads; and the debug model in every other case. When that input
  differs from the tree's current one, the tree receives \<open>setInput\<close> with it, and
  otherwise \<open>refresh\<close>; that is the first call of the action, and no later call sets
  the input or refreshes. The tree the action leaves is the tree that call produced,
  with the selection reconciled as on a focus change if the call was resolved; if it
  was rejected, the error goes to \<^verbatim>\<open>errors.onUnexpectedError\<close>.
\<close>

theorem callstack_input_choice:
  assumes "chosen = inputRef (newTreeInput vm model)"
    and "after = onCallStackChangeScheduler T vm model v"
  shows "newTreeInput vm model =
     (if \<not> isMultiProcessView vm \<and> getProcesses model \<noteq> []
      then (case getAllThreads (hd (getProcesses model)) of
              [t] \<Rightarrow> InputThread t
            | _ \<Rightarrow> InputProcess (hd (getProcesses model)))
      else InputModel)
   \<and> (\<exists>rest. calls after
          = calls v @ (if getInput T (tree v) = Some chosen then Refresh None
                       else SetInput chosen) # rest
        \<and> (\<forall>c \<in> set rest. \<not> isRefresh c \<and> \<not> isSetInput c))
   \<and> (\<forall>r t1. (if getInput T (tree v) = Some chosen then refresh T None (tree v)
                else setInput T chosen (tree v)) = (r, t1) \<longrightarrow>
        (case r of
           Some e \<Rightarrow> tree after = t1 \<and> onUnexpectedError after = onUnexpectedError v @ [e]
         | None \<Rightarrow>
             tree after = tree (CallStackView_onDidFocusStackFrame T vm (v\<lparr>tree := t1\<rparr>))
             \<and> onUnexpectedError after
                 = onUnexpectedError (CallStackView_onDidFocusStackFrame T vm (v\<lparr>tree := t1\<rparr>))))"
proof -
  have a: "newTreeInput vm model =
     (if \<not> isMultiProcessView vm \<and> getProcesses model \<noteq> []
      then (case getAllThreads (hd (getProcesses model)) of
              [t] \<Rightarrow> InputThread t
            | _ \<Rightarrow> InputProcess (hd (getProcesses model)))
      else InputModel)"
    by (auto simp: newTreeInput_def Let_def split: list.splits)
  let ?v1 = "(case newTreeInput vm model of
                  InputThread t \<Rightarrow>
                    (case stoppedDetails t of
                       Some sd \<Rightarrow> showPauseMessage sd v
                     | None \<Rightarrow> v\<lparr>pauseMessage_shown := False\<rparr>)
                | _ \<Rightarrow> v\<lparr>pauseMessage_shown := False\<rparr>)"
  let ?first = "(if getInput T (tree v) = Some chosen then Refresh None else SetInput chosen)"
  let ?m = "(if getInput T (tree v) = Some chosen then refresh T None else setInput T chosen)"
  have v1: "calls ?v1 = calls v" "tree ?v1 = tree v" "onUnexpectedError ?v1 = onUnexpectedError v"
    by (simp_all add: showPauseMessage_def Let_def split: treeInput.splits option.splits)
  have run: "after = done' (treePromise ?first ?m) (\<lambda>_. updateTreeSelection T vm) report ?v1"
    unfolding assms by (simp add: onCallStackChangeScheduler_def Let_def v1)
  obtain r t1 where m: "?m (tree v) = (r, t1)" by (cases "?m (tree v)")
  let ?s1 = "?v1\<lparr>tree := t1, calls := calls v @ [?first]\<rparr>"
  show ?thesis
  proof (cases r)
    case (Some e)
    have p: "treePromise ?first ?m ?v1
        = (Inl e, ?v1\<lparr>tree := t1, calls := calls v @ [?first], rejected := rejected ?v1 @ [e]\<rparr>)"
      using m Some by (simp add: treePromise_def v1)
    have "calls after = calls v @ ?first # []" "tree after = t1"
      "onUnexpectedError after = onUnexpectedError v @ [e]"
      unfolding run by (simp_all add: done'_def p report_def v1)
    with a m Some show ?thesis
      by (intro conjI exI [where x = "[]"]) (auto split: if_splits)
  next
    case None
    have p: "treePromise ?first ?m ?v1 = (Inr (), ?s1)"
      using m None by (simp add: treePromise_def v1)
    obtain rest where rest: "calls (snd (updateTreeSelection T vm ?s1)) = calls ?s1 @ rest"
      "\<forall>c \<in> set rest. \<not> isRefresh c \<and> \<not> isSetInput c"
      using updateTreeSelection_rest [of T vm ?s1] by blast
    have same: "tree (snd (updateTreeSelection T vm ?s1))
          = tree (snd (updateTreeSelection T vm (v\<lparr>tree := t1\<rparr>)))"
      "fst (updateTreeSelection T vm ?s1) = fst (updateTreeSelection T vm (v\<lparr>tree := t1\<rparr>))"
      using updateTreeSelection_tree_only [of ?s1 "v\<lparr>tree := t1\<rparr>" T vm] by simp_all
    have after: "after = (case updateTreeSelection T vm ?s1 of
        (Inl e, s2) \<Rightarrow> report e s2 | (Inr u, s2) \<Rightarrow> s2)"
      unfolding run by (simp add: done'_def p)
    have focus: "CallStackView_onDidFocusStackFrame T vm (v\<lparr>tree := t1\<rparr>)
        = (case updateTreeSelection T vm (v\<lparr>tree := t1\<rparr>) of
             (Inl e, s2) \<Rightarrow> report e s2 | (Inr u, s2) \<Rightarrow> s2)"
      by (simp add: CallStackView_onDidFocusStackFrame_def done_TPromise_as)
    obtain q s2 where u1: "updateTreeSelection T vm ?s1 = (q, s2)"
      by (cases "updateTreeSelection T vm ?s1")
    obtain q' s2' where u2: "updateTreeSelection T vm (v\<lparr>tree := t1\<rparr>) = (q', s2')"
      by (cases "updateTreeSelection T vm (v\<lparr>tree := t1\<rparr>)")
    have q: "q' = q" "tree s2' = tree s2" using same u1 u2 by simp_all
    have sink: "onUnexpectedError s2 = onUnexpectedError v" "onUnexpectedError s2' = onUnexpectedError v"
      using updateTreeSelection_sink [of T vm ?s1] updateTreeSelection_sink [of T vm "v\<lparr>tree := t1\<rparr>"]
        u1 u2 v1 by simp_all
    have c: "calls after = calls v @ ?first # rest"
      unfolding after using u1 rest(1) by (cases q) (simp_all add: report_def)
    have t: "tree after = tree (CallStackView_onDidFocusStackFrame T vm (v\<lparr>tree := t1\<rparr>))"
      unfolding after focus using u1 u2 q by (cases q) (simp_all add: report_def)
    have e: "onUnexpectedError after
        = onUnexpectedError (CallStackView_onDidFocusStackFrame T vm (v\<lparr>tree := t1\<rparr>))"
      unfolding after focus using u1 u2 q sink by (cases q) (simp_all add: report_def)
    from a c rest(2) t e m None show ?thesis
      by (intro conjI exI [where x = rest]) (auto split: if_splits)
  qed
qed

theorem callstack_input_choice_witness:
  "newTreeInput noFocus singleProcessModel = InputThread mainThread
   \<and> input (tree (onCallStackChangeScheduler simpleTree noFocus singleProcessModel
        (CallStackView_new Map.empty visibleTree))) = Some (ThreadRef 1 1)
   \<and> input (tree (onCallStackChangeScheduler simpleTree noFocus singleProcessModel
        (CallStackView_new Map.empty
           (visibleTree\<lparr>input := Some (ProcessRef 1), expandedNodes := [ThreadRef 1 1]\<rparr>))))
       = Some (ThreadRef 1 1)
   \<and> expandedNodes (tree (onCallStackChangeScheduler simpleTree noFocus singleProcessModel
        (CallStackView_new Map.empty
           (visibleTree\<lparr>input := Some (ProcessRef 1), expandedNodes := [ThreadRef 1 1]\<rparr>)))) = []
   \<and> expandedNodes (tree (onCallStackChangeScheduler simpleTree noFocus singleProcessModel
        (CallStackView_new Map.empty
           (visibleTree\<lparr>input := Some (ThreadRef 1 1), expandedNodes := [StackFrameRef 1]\<rparr>))))
       = [StackFrameRef 1]"
proof -
  have n: "newTreeInput noFocus singleProcessModel = InputThread mainThread"
    by (simp add: newTreeInput_def noFocus_def singleProcessModel_def sampleModel_def
        nodeProcess_def)
  have c: "ThreadRef 1 1 = inputRef (newTreeInput noFocus singleProcessModel)"
    by (simp add: n threadRef_def mainThread_def)
  note w = callstack_input_choice [OF c refl, where T = simpleTree, THEN conjunct2,
      THEN conjunct2, THEN spec, THEN spec, THEN mp]
  have focus: "tree (CallStackView_onDidFocusStackFrame simpleTree noFocus
        (CallStackView_new Map.empty t)) = t\<lparr>selection := []\<rparr>"
    if "input t \<noteq> None" for t
    using that
    by (auto simp: CallStackView_onDidFocusStackFrame_def done_TPromise_as
        updateTreeSelection_def TPromise_as_def treeCall_def noFocus_def simpleTree_def
        CallStackView_new_def)
  have upd: "(CallStackView_new Map.empty t)\<lparr>tree := t'\<rparr> = CallStackView_new Map.empty t'"
    for t t' :: SimpleTree
    by (simp add: CallStackView_new_def)
  have 1: "tree (onCallStackChangeScheduler simpleTree noFocus singleProcessModel
        (CallStackView_new Map.empty visibleTree))
      = visibleTree\<lparr>input := Some (ThreadRef 1 1), expandedNodes := [], selection := []\<rparr>"
    using w [of "CallStackView_new Map.empty visibleTree" None
        "visibleTree\<lparr>input := Some (ThreadRef 1 1), expandedNodes := [], selection := []\<rparr>"]
    by (simp add: upd focus) (simp add: CallStackView_new_def simpleTree_def visibleTree_def
        emptyTree_def)
  have 2: "tree (onCallStackChangeScheduler simpleTree noFocus singleProcessModel
        (CallStackView_new Map.empty
           (visibleTree\<lparr>input := Some (ProcessRef 1), expandedNodes := [ThreadRef 1 1]\<rparr>)))
      = visibleTree\<lparr>input := Some (ThreadRef 1 1), expandedNodes := [], selection := []\<rparr>"
    using w [of "CallStackView_new Map.empty
           (visibleTree\<lparr>input := Some (ProcessRef 1), expandedNodes := [ThreadRef 1 1]\<rparr>)" None
        "visibleTree\<lparr>input := Some (ThreadRef 1 1), expandedNodes := [], selection := []\<rparr>"]
    by (simp add: upd focus) (simp add: CallStackView_new_def simpleTree_def visibleTree_def
        emptyTree_def)
  have 3: "tree (onCallStackChangeScheduler simpleTree noFocus singleProcessModel
        (CallStackView_new Map.empty
           (visibleTree\<lparr>input := Some (ThreadRef 1 1), expandedNodes := [StackFrameRef 1]\<rparr>)))
      = visibleTree\<lparr>input := Some (ThreadRef 1 1), expandedNodes := [StackFrameRef 1],
          selection := []\<rparr>"
    using w [of "CallStackView_new Map.empty
           (visibleTree\<lparr>input := Some (ThreadRef 1 1), expandedNodes := [StackFrameRef 1]\<rparr>)" None
        "visibleTree\<lparr>input := Some (ThreadRef 1 1), expandedNodes := [StackFrameRef 1]\<rparr>"]
    by (simp add: upd focus) (simp add: CallStackView_new_def simpleTree_def visibleTree_def
        emptyTree_def)
  show ?thesis unfolding 1 2 3 by (simp add: n)
qed

subsection \<open>Selection\<close>

text \<open>
  C5, as the claim states it, fails: only the call stack view reconciles the selection.
  The variables view also listens to the focus event, and all it does is schedule its
  refresh; with a process focused, neither the listener nor the refresh that follows
  selects or reveals anything.
\<close>

theorem variables_focus_counterexample:
  "getInput simpleTree (tree (VariablesView_new Map.empty (visibleTree\<lparr>input := Some ViewModel\<rparr>)))
      = Some ViewModel
   \<and> calls (fold (VariablesView_step simpleTree)
        [VDidFocusStackFrame 10 True, VTimer 10 (noFocus\<lparr>focusedProcess := Some nodeProcess\<rparr>)]
        (VariablesView_new Map.empty (visibleTree\<lparr>input := Some ViewModel\<rparr>)))
      = [ClearHighlight, Refresh None]
   \<and> selection (tree (fold (VariablesView_step simpleTree)
        [VDidFocusStackFrame 10 True, VTimer 10 (noFocus\<lparr>focusedProcess := Some nodeProcess\<rparr>)]
        (VariablesView_new Map.empty (visibleTree\<lparr>input := Some ViewModel\<rparr>)))) = []"
  by (simp add: VariablesView_new_def VariablesView_scheduler_def simpleTree_def visibleTree_def
      emptyTree_def noFocus_def VariablesView_onDidFocusStackFrame_def schedule_def
      isScheduled_def setTimeout_def cancel_def tick_def onFocusStackFrameScheduler_def
      restoreExpansion_def Let_def treeCall_def treePromise_def then'_def done'_def
      TPromise_as_def)

text \<open>
  C5, amended. On a focus-change event the call stack view reconciles the selection of
  its tree. With no input in the tree yet, nothing changes. With neither thread nor
  process focused, the tree's selection is cleared. With a process but no thread
  focused, the tree's selection is set to the process and the process is revealed. With
  a thread focused, its process and the thread are expanded on the tree; if that is
  resolved and a stack frame is focused, the selection is set to the frame and the frame
  is revealed. The tree the listener leaves is the one these calls produce, and a
  rejection of \<open>expandAll\<close> or \<open>reveal\<close> goes to \<^verbatim>\<open>errors.onUnexpectedError\<close>.
\<close>

theorem updateTreeSelection_cases:
  assumes "after = CallStackView_onDidFocusStackFrame T vm v"
  shows "(getInput T (tree v) = None \<longrightarrow> after = v)
   \<and> (getInput T (tree v) \<noteq> None \<and> focusedThread vm = None \<and> focusedProcess vm = None \<longrightarrow>
        after = v\<lparr>tree := clearSelection T (tree v), calls := calls v @ [ClearSelection]\<rparr>)
   \<and> (\<forall>p r t1. getInput T (tree v) \<noteq> None \<and> focusedThread vm = None \<and> focusedProcess vm = Some p
          \<and> reveal T (processRef p) (setSelection T [processRef p] (tree v)) = (r, t1) \<longrightarrow>
        tree after = t1
        \<and> calls after = calls v @ [SetSelection [processRef p], Reveal (processRef p)]
        \<and> onUnexpectedError after = onUnexpectedError v @ errorsOf r)
   \<and> (\<forall>th e t1. getInput T (tree v) \<noteq> None \<and> focusedThread vm = Some th
          \<and> expandAll T [ProcessRef (process th), threadRef th] (tree v) = (Some e, t1) \<longrightarrow>
        tree after = t1
        \<and> calls after = calls v @ [ExpandAll [ProcessRef (process th), threadRef th]]
        \<and> onUnexpectedError after = onUnexpectedError v @ [e])
   \<and> (\<forall>th t1. getInput T (tree v) \<noteq> None \<and> focusedThread vm = Some th
          \<and> expandAll T [ProcessRef (process th), threadRef th] (tree v) = (None, t1)
          \<and> focusedStackFrame vm = None \<longrightarrow>
        tree after = t1
        \<and> calls after = calls v @ [ExpandAll [ProcessRef (process th), threadRef th]]
        \<and> onUnexpectedError after = onUnexpectedError v)
   \<and> (\<forall>th t1 sf r t2. getInput T (tree v) \<noteq> None \<and> focusedThread vm = Some th
          \<and> expandAll T [ProcessRef (process th), threadRef th] (tree v) = (None, t1)
          \<and> focusedStackFrame vm = Some sf
          \<and> reveal T (stackFrameRef sf) (setSelection T [stackFrameRef sf] t1) = (r, t2) \<longrightarrow>
        tree after = t2
        \<and> calls after = calls v @ [ExpandAll [ProcessRef (process th), threadRef th],
             SetSelection [stackFrameRef sf], Reveal (stackFrameRef sf)]
        \<and> onUnexpectedError after = onUnexpectedError v @ errorsOf r)"
  unfolding assms CallStackView_onDidFocusStackFrame_def done_TPromise_as
  by (auto simp: updateTreeSelection_def Let_def TPromise_as_def treeCall_def treePromise_def
      then'_def report_def errorsOf_def split: option.splits prod.splits sum.splits)

theorem updateTreeSelection_cases_witness:
  "CallStackView_onDidFocusStackFrame simpleTree (noFocus\<lparr>focusedProcess := Some nodeProcess\<rparr>)
      (CallStackView_new Map.empty visibleTree) = CallStackView_new Map.empty visibleTree
   \<and> calls (CallStackView_onDidFocusStackFrame simpleTree noFocus
      (CallStackView_new Map.empty (visibleTree\<lparr>input := Some DebugModel, selection := [ProcessRef 1]\<rparr>)))
       = [ClearSelection]
   \<and> selection (tree (CallStackView_onDidFocusStackFrame simpleTree noFocus
      (CallStackView_new Map.empty (visibleTree\<lparr>input := Some DebugModel, selection := [ProcessRef 1]\<rparr>))))
       = []
   \<and> calls (CallStackView_onDidFocusStackFrame simpleTree (noFocus\<lparr>focusedProcess := Some nodeProcess\<rparr>)
      (CallStackView_new Map.empty (visibleTree\<lparr>input := Some DebugModel\<rparr>)))
       = [SetSelection [ProcessRef 1], Reveal (ProcessRef 1)]
   \<and> selection (tree (CallStackView_onDidFocusStackFrame simpleTree
        (noFocus\<lparr>focusedProcess := Some nodeProcess\<rparr>)
        (CallStackView_new Map.empty (visibleTree\<lparr>input := Some DebugModel\<rparr>)))) = [ProcessRef 1]
   \<and> calls (CallStackView_onDidFocusStackFrame simpleTree
        \<lparr> focusedStackFrame = Some localFrame, focusedThread = Some mainThread,
          focusedProcess = Some nodeProcess, isMultiProcessView = False \<rparr>
      (CallStackView_new Map.empty (visibleTree\<lparr>input := Some DebugModel\<rparr>)))
       = [ExpandAll [ProcessRef 1, ThreadRef 1 1], SetSelection [StackFrameRef 1],
          Reveal (StackFrameRef 1)]
   \<and> selection (tree (CallStackView_onDidFocusStackFrame simpleTree
        \<lparr> focusedStackFrame = Some localFrame, focusedThread = Some mainThread,
          focusedProcess = Some nodeProcess, isMultiProcessView = False \<rparr>
      (CallStackView_new Map.empty (visibleTree\<lparr>input := Some DebugModel\<rparr>))))
       = [StackFrameRef 1]
   \<and> expandedNodes (tree (CallStackView_onDidFocusStackFrame simpleTree
        \<lparr> focusedStackFrame = Some localFrame, focusedThread = Some mainThread,
          focusedProcess = Some nodeProcess, isMultiProcessView = False \<rparr>
      (CallStackView_new Map.empty (visibleTree\<lparr>input := Some DebugModel\<rparr>))))
       = [ProcessRef 1, ThreadRef 1 1]"
  using updateTreeSelection_cases [OF refl, where T = simpleTree
      and v = "CallStackView_new Map.empty visibleTree"
      and vm = "noFocus\<lparr>focusedProcess := Some nodeProcess\<rparr>"]
    updateTreeSelection_cases [OF refl, where T = simpleTree
      and v = "CallStackView_new Map.empty (visibleTree\<lparr>input := Some DebugModel, selection := [ProcessRef 1]\<rparr>)"
      and vm = noFocus]
    updateTreeSelection_cases [OF refl, where T = simpleTree
      and v = "CallStackView_new Map.empty (visibleTree\<lparr>input := Some DebugModel\<rparr>)"
      and vm = "noFocus\<lparr>focusedProcess := Some nodeProcess\<rparr>"]
    updateTreeSelection_cases [OF refl, where T = simpleTree
      and v = "CallStackView_new Map.empty (visibleTree\<lparr>input := Some DebugModel\<rparr>)"
      and vm = "\<lparr> focusedStackFrame = Some localFrame, focusedThread = Some mainThread,
          focusedProcess = Some nodeProcess, isMultiProcessView = False \<rparr>"]
  by (simp add: CallStackView_new_def simpleTree_def visibleTree_def emptyTree_def noFocus_def
      processRef_def threadRef_def stackFrameRef_def nodeProcess_def mainThread_def
      localFrame_def errorsOf_def)

subsection \<open>Failures\<close>



subsection \<open>Shutdown\<close>

text \<open>
  C8. On shutdown each of the four views writes one entry into the viewlet settings: the
  negation of \<^verbatim>\<open>isExpanded()\<close> under its own key; every other key keeps its value,
  given that the base class's \<^verbatim>\<open>shutdown\<close> leaves the settings alone.
\<close>

theorem shutdown_writes_one_flag:
  assumes "\<And>x. settings (sv x) = settings x" and "\<And>x. settings (sw x) = settings x"
    and "\<And>x. settings (sc x) = settings x" and "\<And>x. settings (sb x) = settings x"
  shows "settings (VariablesView_shutdown sv vv)
           = (settings vv)(''variablesview.memento'' \<mapsto> Boolean (\<not> isExpanded vv))
       \<and> settings (WatchExpressionsView_shutdown sw wv)
           = (settings wv)(''watchexpressionsview.memento'' \<mapsto> Boolean (\<not> isExpanded wv))
       \<and> settings (CallStackView_shutdown sc cv)
           = (settings cv)(''callstackview.memento'' \<mapsto> Boolean (\<not> isExpanded cv))
       \<and> settings (BreakpointsView_shutdown sb bv)
           = (settings bv)(''breakopintsview.memento'' \<mapsto> Boolean (\<not> isExpanded bv))
       \<and> (\<forall>k. k \<noteq> ''variablesview.memento'' \<longrightarrow>
             settings (VariablesView_shutdown sv vv) k = settings vv k)
       \<and> (\<forall>k. k \<noteq> ''watchexpressionsview.memento'' \<longrightarrow>
             settings (WatchExpressionsView_shutdown sw wv) k = settings wv k)
       \<and> (\<forall>k. k \<noteq> ''callstackview.memento'' \<longrightarrow>
             settings (CallStackView_shutdown sc cv) k = settings cv k)
       \<and> (\<forall>k. k \<noteq> ''breakopintsview.memento'' \<longrightarrow>
             settings (BreakpointsView_shutdown sb bv) k = settings bv k)"
  by (simp add: assms VariablesView_shutdown_def WatchExpressionsView_shutdown_def
      CallStackView_shutdown_def BreakpointsView_shutdown_def VariablesView_MEMENTO_def
      WatchExpressionsView_MEMENTO_def CallStackView_MEMENTO_def BreakpointsView_MEMENTO_def)

theorem shutdown_writes_one_flag_witness:
  "settings (VariablesView_shutdown (\<lambda>v. v)
      (VariablesView_new [''callstackview.memento'' \<mapsto> Boolean True] visibleTree))
      ''variablesview.memento'' = Some (Boolean False)
   \<and> settings (VariablesView_shutdown (\<lambda>v. v)
      (VariablesView_new [''callstackview.memento'' \<mapsto> Boolean True] visibleTree))
      ''callstackview.memento'' = Some (Boolean True)
   \<and> settings (WatchExpressionsView_shutdown (\<lambda>v. v)
      ((WatchExpressionsView_new Map.empty visibleTree)\<lparr>isExpanded := False\<rparr>))
      ''watchexpressionsview.memento'' = Some (Boolean True)
   \<and> settings (CallStackView_shutdown (\<lambda>v. v) (CallStackView_new Map.empty visibleTree))
      ''callstackview.memento'' = Some (Boolean False)
   \<and> settings (BreakpointsView_shutdown (\<lambda>v. v)
      (BreakpointsView_new Map.empty sampleModel (Some visibleTree)))
      ''breakopintsview.memento'' = Some (Boolean False)"
proof -
  have s: "\<And>x :: SimpleTree VariablesView. settings ((\<lambda>v. v) x) = settings x"
    "\<And>x :: SimpleTree WatchExpressionsView. settings ((\<lambda>v. v) x) = settings x"
    "\<And>x :: SimpleTree CallStackView. settings ((\<lambda>v. v) x) = settings x"
    "\<And>x :: SimpleTree BreakpointsView. settings ((\<lambda>v. v) x) = settings x"
    by simp_all
  from shutdown_writes_one_flag [OF s,
      of "VariablesView_new [''callstackview.memento'' \<mapsto> Boolean True] visibleTree"
         "(WatchExpressionsView_new Map.empty visibleTree)\<lparr>isExpanded := False\<rparr>"
         "CallStackView_new Map.empty visibleTree"
         "BreakpointsView_new Map.empty sampleModel (Some visibleTree)"]
  show ?thesis
    by (simp add: VariablesView_new_def WatchExpressionsView_new_def CallStackView_new_def
        BreakpointsView_new_def)
qed

subsection \<open>The sort policy of the breakpoints tree\<close>

text \<open>
  C1, as the claim states it, fails: the comparator answers \<open>-1\<close> whenever its first
  argument is an exception breakpoint, so two exception breakpoints compare as \<open>-1\<close> in
  both orders and swapping does not negate the sign; and two source breakpoints of
  different files with the same basename compare as equal whatever their lines.
\<close>

theorem compare_swap_counterexample:
  "sgn (compare pathResources (ExceptionBreakpoint ''all'') (ExceptionBreakpoint ''uncaught''))
     = sgn (compare pathResources (ExceptionBreakpoint ''uncaught'') (ExceptionBreakpoint ''all''))
   \<and> compare pathResources (ExceptionBreakpoint ''all'') (ExceptionBreakpoint ''uncaught'') \<noteq> 0
   \<and> compare pathResources (Breakpoint ''/a/x.ts'' 7 1) (Breakpoint ''/b/x.ts'' 3 1) = 0"
  by (simp add: pathResources_def)

text \<open>
  C1, amended. An exception breakpoint sorts before every element that is not one; a
  function breakpoint sorts before every source breakpoint; two source breakpoints whose
  URIs have different string forms are ordered by the locale comparison of their
  basename-or-authority alone, and two with the same string form by line, then by column.
  For every pair that is not two exception breakpoints and not two function breakpoints,
  swapping the arguments negates the sign of the result, given that the locale comparison
  itself does so.
\<close>

theorem compare_order:
  assumes lc: "\<And>x y. sgn (localeCompare R y x) = - sgn (localeCompare R x y)"
  shows "(isExceptionBreakpoint a \<and> \<not> isExceptionBreakpoint b
            \<longrightarrow> compare R a b < 0 \<and> 0 < compare R b a)
       \<and> (isFunctionBreakpoint a \<and> isBreakpoint b
            \<longrightarrow> compare R a b < 0 \<and> 0 < compare R b a)
       \<and> (\<forall>u1 l1 c1 u2 l2 c2. a = Breakpoint u1 l1 c1 \<and> b = Breakpoint u2 l2 c2 \<longrightarrow>
            compare R a b =
              (if toString R u1 \<noteq> toString R u2
               then localeCompare R (basenameOrAuthority R u1) (basenameOrAuthority R u2)
               else if l1 \<noteq> l2 then l1 - l2 else c1 - c2))
       \<and> (\<not> (isExceptionBreakpoint a \<and> isExceptionBreakpoint b)
            \<and> \<not> (isFunctionBreakpoint a \<and> isFunctionBreakpoint b)
            \<longrightarrow> sgn (compare R b a) = - sgn (compare R a b))"
proof -
  have swap: "sgn (compare R b a) = - sgn (compare R a b)"
    if "\<not> (isExceptionBreakpoint a \<and> isExceptionBreakpoint b)"
      and "\<not> (isFunctionBreakpoint a \<and> isFunctionBreakpoint b)"
  proof (cases a)
    case (ExceptionBreakpoint f)
    with that show ?thesis by (cases b) simp_all
  next
    case (FunctionBreakpoint n)
    with that show ?thesis by (cases b) simp_all
  next
    case A: (Breakpoint u1 l1 c1)
    show ?thesis
    proof (cases b)
      case (Breakpoint u2 l2 c2)
      show ?thesis
      proof (cases "toString R u1 = toString R u2")
        case True
        with A Breakpoint show ?thesis by (auto simp: sgn_if)
      next
        case False
        with A Breakpoint lc [of "basenameOrAuthority R u2" "basenameOrAuthority R u1"]
        show ?thesis by simp
      qed
    qed (simp_all add: A)
  qed
  have first: "isExceptionBreakpoint a \<and> \<not> isExceptionBreakpoint b
      \<longrightarrow> compare R a b < 0 \<and> 0 < compare R b a"
    by (cases a; cases b) simp_all
  have second: "isFunctionBreakpoint a \<and> isBreakpoint b
      \<longrightarrow> compare R a b < 0 \<and> 0 < compare R b a"
    by (cases a; cases b) simp_all
  from swap first second show ?thesis by auto
qed

theorem compare_order_witness:
  "compare pathResources (ExceptionBreakpoint ''all'') (FunctionBreakpoint ''main'') < 0
   \<and> compare pathResources (FunctionBreakpoint ''main'') (Breakpoint ''/a/x.ts'' 7 1) < 0
   \<and> compare pathResources (Breakpoint ''/a/x.ts'' 7 1) (Breakpoint ''/a/y.ts'' 3 1) = - 1
   \<and> compare pathResources (Breakpoint ''/a/x.ts'' 7 4) (Breakpoint ''/a/x.ts'' 7 1) = 3
   \<and> sgn (compare pathResources (Breakpoint ''/a/y.ts'' 3 1) (Breakpoint ''/a/x.ts'' 7 1))
       = - sgn (compare pathResources (Breakpoint ''/a/x.ts'' 7 1) (Breakpoint ''/a/y.ts'' 3 1))"
proof -
  have lc: "\<And>x y. sgn (localeCompare pathResources y x) = - sgn (localeCompare pathResources x y)"
    by (rule pathResources_swap)
  have swap: "sgn (compare pathResources (Breakpoint ''/a/y.ts'' 3 1) (Breakpoint ''/a/x.ts'' 7 1))
       = - sgn (compare pathResources (Breakpoint ''/a/x.ts'' 7 1) (Breakpoint ''/a/y.ts'' 3 1))"
    using compare_order [OF lc, of "Breakpoint ''/a/x.ts'' 7 1" "Breakpoint ''/a/y.ts'' 3 1"]
    by simp
  have e: "compare pathResources (ExceptionBreakpoint ''all'') (FunctionBreakpoint ''main'') < 0"
    using compare_order [OF lc, of "ExceptionBreakpoint ''all''" "FunctionBreakpoint ''main''"]
    by simp
  have f: "compare pathResources (FunctionBreakpoint ''main'') (Breakpoint ''/a/x.ts'' 7 1) < 0"
    using compare_order [OF lc, of "FunctionBreakpoint ''main''" "Breakpoint ''/a/x.ts'' 7 1"]
    by simp
  have v: "compare pathResources (Breakpoint ''/a/x.ts'' 7 1) (Breakpoint ''/a/y.ts'' 3 1) = - 1"
    "compare pathResources (Breakpoint ''/a/x.ts'' 7 4) (Breakpoint ''/a/x.ts'' 7 1) = 3"
    by (simp_all add: pathResources_def)
  from swap e f v show ?thesis by simp
qed

subsection \<open>The size of the breakpoints view\<close>

text \<open>
  C9. The expanded body size is \<open>min(9, b + e + f) * 22\<close> for the numbers \<open>b\<close>, \<open>e\<close>,
  \<open>f\<close> of source, exception and function breakpoints; it never exceeds 198, and it is
  0 exactly when there is no breakpoint of any kind.
\<close>

theorem getExpandedBodySize_bounds:
  "getExpandedBodySize model
     = min 9 (length (getBreakpoints model) + length (getExceptionBreakpoints model)
              + length (getFunctionBreakpoints model)) * 22
   \<and> getExpandedBodySize model \<le> 198
   \<and> (getExpandedBodySize model = 0 \<longleftrightarrow>
        getBreakpoints model = [] \<and> getExceptionBreakpoints model = []
        \<and> getFunctionBreakpoints model = [])"
  by (auto simp: getExpandedBodySize_def MAX_VISIBLE_FILES_def Let_def min_def)

theorem getExpandedBodySize_bounds_witness:
  "getExpandedBodySize \<lparr> getProcesses = [], getBreakpoints = [Breakpoint ''/a/x.ts'' 7 1, Breakpoint ''/a/x.ts'' 9 1],
       getExceptionBreakpoints = [ExceptionBreakpoint ''all''],
       getFunctionBreakpoints = [] \<rparr> = 66
   \<and> getExpandedBodySize \<lparr> getProcesses = [], getBreakpoints = ([] :: string IBreakpoint list),
       getExceptionBreakpoints = [], getFunctionBreakpoints = [] \<rparr> = 0"
  using getExpandedBodySize_bounds [of "\<lparr> getProcesses = [], getBreakpoints = [Breakpoint ''/a/x.ts'' 7 1, Breakpoint ''/a/x.ts'' 9 1],
       getExceptionBreakpoints = [ExceptionBreakpoint ''all''],
       getFunctionBreakpoints = [] \<rparr>"]
    getExpandedBodySize_bounds [of "\<lparr> getProcesses = [], getBreakpoints = ([] :: string IBreakpoint list),
       getExceptionBreakpoints = [], getFunctionBreakpoints = [] \<rparr>"]
  by simp

end
